theory Spec2Isabelle
  imports Complex_Main "HOL-Library.Word" "HOL-Library.Log_Nat"
begin

unbundle bit_operations_syntax

section \<open>Data model of the AHTxx driver (src/src/AHTxx.cpp)\<close>

type_synonym u8 = "8 word"
type_synonym u32 = "32 word"

text \<open>
  The sensor families of \<^verbatim>\<open>AHTXX_I2C_SENSOR\<close>. The code tests
  \<^verbatim>\<open>_sensorType == AHT1x_SENSOR\<close> and \<^verbatim>\<open>_sensorType == AHT2x_SENSOR\<close>.
\<close>

datatype AHTXX_I2C_SENSOR = AHT1x_SENSOR | AHT2x_SENSOR

text \<open>
  Modelled from the spec: the macros of \<^verbatim>\<open>AHTxx.h\<close>, a header that is not among the
  sources. The status codes are the ones listed in the comment of \<^verbatim>\<open>getStatus()\<close>
  (AHTxx.cpp, lines 261 to 265); \<^verbatim>\<open>AHTXX_ERROR\<close> is the value that the comment of
  \<^verbatim>\<open>_getCalibration()\<close> gives for its error return (0xFF); the busy and the
  calibration masks are the ones of the comments of \<^verbatim>\<open>_getBusy()\<close> and
  \<^verbatim>\<open>_getCalibration()\<close> (0x80 and 0x08, as in section 6 of the specification); the
  flag of the accessors asks for a forced read when it is true.
\<close>

definition AHTXX_NO_ERROR :: u8 where "AHTXX_NO_ERROR = 0x00"
definition AHTXX_BUSY_ERROR :: u8 where "AHTXX_BUSY_ERROR = 0x01"
definition AHTXX_ACK_ERROR :: u8 where "AHTXX_ACK_ERROR = 0x02"
definition AHTXX_DATA_ERROR :: u8 where "AHTXX_DATA_ERROR = 0x03"
definition AHTXX_CRC8_ERROR :: u8 where "AHTXX_CRC8_ERROR = 0x04"
definition AHTXX_ERROR :: u8 where "AHTXX_ERROR = 0xFF"
definition AHTXX_STATUS_CTRL_BUSY :: u8 where "AHTXX_STATUS_CTRL_BUSY = 0x80"
definition AHTXX_STATUS_CTRL_CAL_ON :: u8 where "AHTXX_STATUS_CTRL_CAL_ON = 0x08"
definition AHTXX_FORCE_READ_DATA :: bool where "AHTXX_FORCE_READ_DATA = True"
definition AHTXX_USE_READ_DATA :: bool where "AHTXX_USE_READ_DATA = False"

text \<open>
  The remaining macros of the header (register addresses, control bytes and delays in
  milliseconds) have no value anywhere in the sources: every function that uses one takes
  them as a parameter.
\<close>

record macros =
  AHTXX_START_MEASUREMENT_REG :: u8
  AHTXX_START_MEASUREMENT_CTRL :: u8
  AHTXX_START_MEASUREMENT_CTRL_NOP :: u8
  AHTXX_SOFT_RESET_REG :: u8
  AHTXX_STATUS_REG :: u8
  AHT1X_INIT_REG :: u8
  AHT2X_INIT_REG :: u8
  AHTXX_INIT_CTRL_CAL_ON :: u8
  AHT1X_INIT_CTRL_NORMAL_MODE :: u8
  AHT1X_INIT_CTRL_CYCLE_MODE :: u8
  AHT1X_INIT_CTRL_CMD_MODE :: u8
  AHTXX_INIT_CTRL_NOP :: u8
  AHTXX_CMD_DELAY :: int
  AHTXX_MEASUREMENT_DELAY :: int
  AHTXX_SOFT_RESET_DELAY :: int

text \<open>
  The members of the class. \<^verbatim>\<open>_rawData[]\<close> is a store from index to byte: its
  declaration is in the missing header, and the code reads and writes the indices 0 to 6
  only.
\<close>

record AHTxx =
  address :: u8
  sensorType :: AHTXX_I2C_SENSOR
  status :: u8
  rawData :: "nat \<Rightarrow> u8"

subsection \<open>The collaborators: the Wire transport and the delay provider\<close>

text \<open>
  What the driver does to its collaborators, in the order it does it. The byte count of
  \<^verbatim>\<open>requestFrom\<close> is the \<^verbatim>\<open>uint8_t\<close> the code passes; the argument of
  \<^verbatim>\<open>delay\<close> is the value of the argument expression.
\<close>

datatype event =
    BeginTransmission u8
  | Write u8
  | EndTransmission bool
  | RequestFrom u8 u8 bool
  | Read
  | Delay int

text \<open>
  The transport is any script of answers: \<open>endResult w n\<close> is the code that the
  \<open>n\<close>-th call of \<^verbatim>\<open>Wire.endTransmission\<close> returns (0 is success), and
  \<open>response w n\<close> are the bytes that the \<open>n\<close>-th call of \<^verbatim>\<open>Wire.requestFrom\<close>
  leaves in the receive buffer. \<open>ends\<close> and \<open>reqs\<close> count the calls made so far.
\<close>

record world =
  endResult :: "nat \<Rightarrow> u8"
  response :: "nat \<Rightarrow> u8 list"
  ends :: nat
  reqs :: nat
  rxBuffer :: "u8 list"
  trace :: "event list"

definition Wire_beginTransmission :: "u8 \<Rightarrow> world \<Rightarrow> world" where
  "Wire_beginTransmission a w = w\<lparr>trace := trace w @ [BeginTransmission a]\<rparr>"

definition Wire_write :: "u8 \<Rightarrow> world \<Rightarrow> world" where
  "Wire_write b w = w\<lparr>trace := trace w @ [Write b]\<rparr>"

definition Wire_endTransmission :: "bool \<Rightarrow> world \<Rightarrow> u8 \<times> world" where
  "Wire_endTransmission sendStop w =
     (endResult w (ends w),
      w\<lparr>ends := Suc (ends w), trace := trace w @ [EndTransmission sendStop]\<rparr>)"

definition Wire_requestFrom :: "u8 \<Rightarrow> u8 \<Rightarrow> bool \<Rightarrow> world \<Rightarrow> world" where
  "Wire_requestFrom a quantity sendStop w =
     w\<lparr>rxBuffer := response w (reqs w), reqs := Suc (reqs w),
       trace := trace w @ [RequestFrom a quantity sendStop]\<rparr>"

definition Wire_available :: "world \<Rightarrow> nat" where
  "Wire_available w = length (rxBuffer w)"

text \<open>\<^verbatim>\<open>Wire.read()\<close> on an empty buffer returns -1, which is 0xFF as a byte.\<close>

definition Wire_read :: "world \<Rightarrow> u8 \<times> world" where
  "Wire_read w =
     (case rxBuffer w of
        [] \<Rightarrow> (0xFF, w\<lparr>trace := trace w @ [Read]\<rparr>)
      | x # xs \<Rightarrow> (x, w\<lparr>rxBuffer := xs, trace := trace w @ [Read]\<rparr>))"

definition delay :: "int \<Rightarrow> world \<Rightarrow> world" where
  "delay ms w = w\<lparr>trace := trace w @ [Delay ms]\<rparr>"

section \<open>Constructor and accessors\<close>

text \<open>
  The constructor assigns the address, the sensor type and the status; \<open>mem\<close> is whatever
  the storage of \<^verbatim>\<open>_rawData[]\<close> holds at that moment.
\<close>

definition AHTxx_new :: "u8 \<Rightarrow> AHTXX_I2C_SENSOR \<Rightarrow> (nat \<Rightarrow> u8) \<Rightarrow> AHTxx" where
  "AHTxx_new a sensor mem =
     \<lparr>address = a, sensorType = sensor, status = AHTXX_NO_ERROR, rawData = mem\<rparr>"

definition getStatus :: "AHTxx \<Rightarrow> u8" where
  "getStatus s = status s"

definition setType :: "AHTXX_I2C_SENSOR \<Rightarrow> AHTxx \<Rightarrow> AHTxx" where
  "setType sensor s = s\<lparr>sensorType := sensor\<rparr>"

section \<open>Field decoding\<close>

text \<open>
  The 20-bit raw values, with the statements of the code one by one on \<^verbatim>\<open>uint32_t\<close>.
\<close>

definition rawHumidity :: "(nat \<Rightarrow> u8) \<Rightarrow> u32" where
  "rawHumidity raw =
     (let humidity = ucast (raw 1);
          humidity = push_bit 8 humidity;
          humidity = humidity OR ucast (raw 2);
          humidity = push_bit 4 humidity;
          humidity = humidity OR drop_bit 4 (ucast (raw 3))
      in humidity)"

definition rawTemperature :: "(nat \<Rightarrow> u8) \<Rightarrow> u32" where
  "rawTemperature raw =
     (let temperature = ucast (raw 3) AND 0x0F;
          temperature = push_bit 8 temperature;
          temperature = temperature OR ucast (raw 4);
          temperature = push_bit 8 temperature;
          temperature = temperature OR ucast (raw 5)
      in temperature)"

subsection \<open>Single precision\<close>

text \<open>
  A finite \<^verbatim>\<open>float\<close> is the rational number it denotes. \<open>fl\<close> is the rounding of IEEE 754
  binary32 in its default mode, for magnitudes below \<open>2 ^ 128\<close> (every value below is under
  256): the nearest number with a significand of 24 bits, a tie going to the even
  significand, and with the spacing \<open>2 ^ -149\<close> of the subnormal numbers below
  \<open>2 ^ -126\<close>. \<open>exponent x\<close> is the \<open>e\<close> with \<open>2 ^ e \<le> \<bar>x\<bar> < 2 ^ (e + 1)\<close>, and \<open>rne\<close>
  rounds to the nearest integer, a tie going to the even one.
\<close>

type_synonym float = rat

definition exponent :: "rat \<Rightarrow> int" where
  "exponent x =
     (if 1 \<le> \<bar>x\<bar> then bitlen \<lfloor>\<bar>x\<bar>\<rfloor> - 1 else - bitlen (\<lceil>1 / \<bar>x\<bar>\<rceil> - 1))"

definition rne :: "rat \<Rightarrow> int" where
  "rne q =
     (let f = \<lfloor>q\<rfloor>; d = q - of_int f
      in if d < 1 / 2 then f else if 1 / 2 < d then f + 1 else if even f then f else f + 1)"

definition fl :: "rat \<Rightarrow> float" where
  "fl x =
     (if x = 0 then 0
      else (let u = 2 powi (max (exponent x - 23) (- 149)) in of_int (rne (x / u)) * u))"

text \<open>
  The conversions of an unsigned and of a signed integer, and the three operations of the
  accessors: the exact result, rounded.
\<close>

definition float_of_nat :: "nat \<Rightarrow> float" where
  "float_of_nat n = fl (of_nat n)"

definition float_of_int :: "int \<Rightarrow> float" where
  "float_of_int i = fl (of_int i)"

definition fdiv :: "float \<Rightarrow> float \<Rightarrow> float" where
  "fdiv x y = fl (x / y)"

definition fmul :: "float \<Rightarrow> float \<Rightarrow> float" where
  "fmul x y = fl (x * y)"

definition fsub :: "float \<Rightarrow> float \<Rightarrow> float" where
  "fsub x y = fl (x - y)"

text \<open>
  \<^verbatim>\<open>((float)humidity / 0x100000) * 100\<close> and
  \<^verbatim>\<open>((float)temperature / 0x100000) * 200 - 50\<close>: the integer constants are converted to
  \<^verbatim>\<open>float\<close>, and every operation is one of single precision.
\<close>

definition humidityOf :: "u32 \<Rightarrow> float" where
  "humidityOf humidity =
     fmul (fdiv (float_of_nat (unat humidity)) (float_of_int 0x100000)) (float_of_int 100)"

definition temperatureOf :: "u32 \<Rightarrow> float" where
  "temperatureOf temperature =
     fsub (fmul (fdiv (float_of_nat (unat temperature)) (float_of_int 0x100000))
             (float_of_int 200))
       (float_of_int 50)"

section \<open>Integrity check\<close>

text \<open>
  One turn of the inner loop of \<^verbatim>\<open>_checkCRC8()\<close>. The operands of \<^verbatim>\<open>&\<close>,
  \<^verbatim>\<open><<\<close> and \<^verbatim>\<open>^\<close> are promoted to \<^verbatim>\<open>int\<close>, where a value below 512 does
  not overflow, and the assignment to the \<^verbatim>\<open>uint8_t\<close> truncates.
\<close>

definition crcShift :: "u8 \<Rightarrow> u8" where
  "crcShift crc =
     (if uint crc AND 0x80 \<noteq> 0 then word_of_int (push_bit 1 (uint crc) XOR 0x31)
      else word_of_int (push_bit 1 (uint crc)))"

text \<open>\<^verbatim>\<open>for (uint8_t bitIndex = 8; bitIndex > 0; --bitIndex)\<close>\<close>

function crcBits :: "u8 \<Rightarrow> u8 \<Rightarrow> u8" where
  "crcBits bitIndex crc =
     (if bitIndex > 0 then crcBits (bitIndex - 1) (crcShift crc) else crc)"
  by pat_completeness auto
termination
  by (relation "measure (\<lambda>(bitIndex, crc). unat bitIndex)")
     (auto simp: word_greater_zero_iff unat_minus_one unat_gt_0)

text \<open>\<^verbatim>\<open>for (uint8_t byteIndex = 0; byteIndex < 6; byteIndex ++)\<close>\<close>

function crcBytes :: "u8 \<Rightarrow> (nat \<Rightarrow> u8) \<Rightarrow> u8 \<Rightarrow> u8" where
  "crcBytes byteIndex raw crc =
     (if byteIndex < 6
      then crcBytes (byteIndex + 1) raw (crcBits 8 (crc XOR raw (unat byteIndex)))
      else crc)"
  by pat_completeness auto
termination
  by (relation "measure (\<lambda>(byteIndex, raw, crc). 6 - unat byteIndex)")
     (auto simp: word_less_nat_alt unat_word_ariths)

definition checkCRC8 :: "AHTxx \<Rightarrow> bool" where
  "checkCRC8 s =
     (if sensorType s = AHT2x_SENSOR
      then crcBytes 0 (rawData s) 0xFF = rawData s 6
      else True)"

section \<open>The measurement transaction\<close>

text \<open>
  \<^verbatim>\<open>_getBusy()\<close> returns a byte and changes the members and the bus; \<open>checkBit\<close> is
  its last statement, which sets \<^verbatim>\<open>_status\<close> from the busy bit of \<^verbatim>\<open>_rawData[0]\<close>. The
  branch of \<^verbatim>\<open>requestFrom\<close> is the one with the stop flag (the other one, for one STM32
  core, differs in that argument only).
\<close>

definition getBusy :: "macros \<Rightarrow> bool \<Rightarrow> AHTxx \<Rightarrow> world \<Rightarrow> u8 \<times> AHTxx \<times> world" where
  "getBusy K readAHT s w =
     (let checkBit = (\<lambda>s'. if rawData s' 0 AND AHTXX_STATUS_CTRL_BUSY = AHTXX_STATUS_CTRL_BUSY
                           then s'\<lparr>status := AHTXX_BUSY_ERROR\<rparr>
                           else s'\<lparr>status := AHTXX_NO_ERROR\<rparr>)
      in if readAHT = AHTXX_FORCE_READ_DATA
         then
           (let w1 = delay (AHTXX_CMD_DELAY K) w;
                w2 = Wire_requestFrom (address s) 1 True w1
            in if Wire_available w2 \<noteq> 1 then (AHTXX_DATA_ERROR, s, w2)
               else
                 (let (b, w3) = Wire_read w2;
                      s1 = s\<lparr>rawData := (rawData s)(0 := b)\<rparr>;
                      s2 = checkBit s1
                  in (status s2, s2, w3)))
         else (let s2 = checkBit s in (status s2, s2, w)))"

text \<open>\<^verbatim>\<open>for (uint8_t i = 0; i < dataSize; i++) _rawData[i] = Wire.read();\<close>\<close>

function readBytes :: "u8 \<Rightarrow> u8 \<Rightarrow> AHTxx \<Rightarrow> world \<Rightarrow> AHTxx \<times> world" where
  "readBytes i dataSize s w =
     (if i < dataSize
      then (let (b, w') = Wire_read w
            in readBytes (i + 1) dataSize (s\<lparr>rawData := (rawData s)(unat i := b)\<rparr>) w')
      else (s, w))"
  by pat_completeness auto
termination
proof (relation "measure (\<lambda>(i, dataSize, s, w). unat dataSize - unat i)")
  show "wf (measure (\<lambda>(i, dataSize, s, w). unat dataSize - unat i))"
    by simp
next
  fix i dataSize :: u8 and s :: AHTxx and w :: world and x :: "u8 \<times> world"
    and b :: u8 and w' :: world
  assume lt: "i < dataSize"
  then have "unat i < unat dataSize"
    by (simp add: word_less_nat_alt)
  moreover have "unat dataSize < 256"
    using unsigned_less [of dataSize, where ?'a = nat] by simp
  ultimately have "unat (i + 1) = unat i + 1"
    by (simp add: unat_word_ariths)
  with \<open>unat i < unat dataSize\<close>
  show "((i + 1, dataSize, s\<lparr>rawData := (rawData s)(unat i := b)\<rparr>, w'), (i, dataSize, s, w))
          \<in> measure (\<lambda>(i, dataSize, s, w). unat dataSize - unat i)"
    by simp
qed

definition readMeasurement :: "macros \<Rightarrow> AHTxx \<Rightarrow> world \<Rightarrow> AHTxx \<times> world" where
  "readMeasurement K s w =
     (let w = Wire_beginTransmission (address s) w;
          w = Wire_write (AHTXX_START_MEASUREMENT_REG K) w;
          w = Wire_write (AHTXX_START_MEASUREMENT_CTRL K) w;
          w = Wire_write (AHTXX_START_MEASUREMENT_CTRL_NOP K) w;
          (r, w) = Wire_endTransmission True w
      in if r \<noteq> 0 then (s\<lparr>status := AHTXX_ACK_ERROR\<rparr>, w)
         else
           (let (st, s, w) = getBusy K AHTXX_FORCE_READ_DATA s w;
                s = s\<lparr>status := st\<rparr>
            in if status s \<noteq> AHTXX_BUSY_ERROR \<and> status s \<noteq> AHTXX_NO_ERROR then (s, w)
               else
                 (let w = (if status s = AHTXX_BUSY_ERROR
                           then delay (AHTXX_MEASUREMENT_DELAY K - AHTXX_CMD_DELAY K) w
                           else w);
                      dataSize = (if sensorType s = AHT1x_SENSOR then 6 else 7);
                      w = Wire_requestFrom (address s) dataSize True w
                  in if Wire_available w \<noteq> unat dataSize
                     then (s\<lparr>status := AHTXX_DATA_ERROR\<rparr>, w)
                     else
                       (let (s, w) = readBytes 0 dataSize s w;
                            (st, s, w) = getBusy K AHTXX_USE_READ_DATA s w;
                            s = s\<lparr>status := st\<rparr>
                        in if status s \<noteq> AHTXX_NO_ERROR then (s, w)
                           else if sensorType s = AHT2x_SENSOR \<and> checkCRC8 s \<noteq> True
                           then (s\<lparr>status := AHTXX_CRC8_ERROR\<rparr>, w)
                           else (s, w)))))"

section \<open>The accessors of the readings\<close>

text \<open>
  \<^verbatim>\<open>return AHTXX_ERROR\<close> in a function of type \<^verbatim>\<open>float\<close> converts the macro.
\<close>

definition readHumidity :: "macros \<Rightarrow> bool \<Rightarrow> AHTxx \<Rightarrow> world \<Rightarrow> float \<times> AHTxx \<times> world" where
  "readHumidity K readI2C s w =
     (let (s, w) = (if readI2C = AHTXX_FORCE_READ_DATA then readMeasurement K s w else (s, w))
      in if status s \<noteq> AHTXX_NO_ERROR then (float_of_nat (unat AHTXX_ERROR), s, w)
         else (humidityOf (rawHumidity (rawData s)), s, w))"

definition readTemperature :: "macros \<Rightarrow> bool \<Rightarrow> AHTxx \<Rightarrow> world \<Rightarrow> float \<times> AHTxx \<times> world" where
  "readTemperature K readAHT s w =
     (let (s, w) = (if readAHT = AHTXX_FORCE_READ_DATA then readMeasurement K s w else (s, w))
      in if status s \<noteq> AHTXX_NO_ERROR then (float_of_nat (unat AHTXX_ERROR), s, w)
         else (temperatureOf (rawTemperature (rawData s)), s, w))"

section \<open>Mode and reset controls\<close>

definition setInitializationRegister :: "macros \<Rightarrow> u8 \<Rightarrow> AHTxx \<Rightarrow> world \<Rightarrow> bool \<times> AHTxx \<times> world" where
  "setInitializationRegister K v s w =
     (let w = delay (AHTXX_CMD_DELAY K) w;
          w = Wire_beginTransmission (address s) w;
          w = (if sensorType s = AHT1x_SENSOR then Wire_write (AHT1X_INIT_REG K) w
               else Wire_write (AHT2X_INIT_REG K) w);
          w = Wire_write v w;
          w = Wire_write (AHTXX_INIT_CTRL_NOP K) w;
          (r, w) = Wire_endTransmission True w
      in (r = 0, s, w))"

definition setNormalMode :: "macros \<Rightarrow> AHTxx \<Rightarrow> world \<Rightarrow> bool \<times> AHTxx \<times> world" where
  "setNormalMode K s w =
     setInitializationRegister K (AHTXX_INIT_CTRL_CAL_ON K OR AHT1X_INIT_CTRL_NORMAL_MODE K) s w"

definition setCycleMode :: "macros \<Rightarrow> AHTxx \<Rightarrow> world \<Rightarrow> bool \<times> AHTxx \<times> world" where
  "setCycleMode K s w =
     setInitializationRegister K (AHTXX_INIT_CTRL_CAL_ON K OR AHT1X_INIT_CTRL_CYCLE_MODE K) s w"

definition setComandMode :: "macros \<Rightarrow> AHTxx \<Rightarrow> world \<Rightarrow> bool \<times> AHTxx \<times> world" where
  "setComandMode K s w =
     setInitializationRegister K (AHTXX_INIT_CTRL_CAL_ON K OR AHT1X_INIT_CTRL_CMD_MODE K) s w"

definition readStatusRegister :: "macros \<Rightarrow> AHTxx \<Rightarrow> world \<Rightarrow> u8 \<times> AHTxx \<times> world" where
  "readStatusRegister K s w =
     (let w = delay (AHTXX_CMD_DELAY K) w;
          w = Wire_beginTransmission (address s) w;
          w = Wire_write (AHTXX_STATUS_REG K) w;
          (r, w) = Wire_endTransmission True w
      in if r \<noteq> 0 then (AHTXX_ERROR, s, w)
         else
           (let w = Wire_requestFrom (address s) 1 True w
            in if Wire_available w = 1 then (let (b, w) = Wire_read w in (b, s, w))
               else (AHTXX_ERROR, s, w)))"

definition getCalibration :: "macros \<Rightarrow> AHTxx \<Rightarrow> world \<Rightarrow> u8 \<times> AHTxx \<times> world" where
  "getCalibration K s w =
     (let (v, s, w) = readStatusRegister K s w
      in if v \<noteq> AHTXX_ERROR then (v AND AHTXX_STATUS_CTRL_CAL_ON, s, w)
         else (AHTXX_ERROR, s, w))"

text \<open>The \<^verbatim>\<open>&&\<close> of the last line does not read the calibration when the mode set failed.\<close>

definition softReset :: "macros \<Rightarrow> AHTxx \<Rightarrow> world \<Rightarrow> bool \<times> AHTxx \<times> world" where
  "softReset K s w =
     (let w = Wire_beginTransmission (address s) w;
          w = Wire_write (AHTXX_SOFT_RESET_REG K) w;
          (r, w) = Wire_endTransmission True w
      in if r \<noteq> 0 then (False, s, w)
         else
           (let w = delay (AHTXX_SOFT_RESET_DELAY K) w;
                (ok, s, w) = setNormalMode K s w
            in if ok = True
               then (let (cal, s, w) = getCalibration K s w
                     in (cal = AHTXX_STATUS_CTRL_CAL_ON, s, w))
               else (False, s, w)))"

section \<open>Values for evaluation\<close>

text \<open>
  One valuation of the macros that have no value in the sources (the register addresses and
  the timings of the data sheets of the sensors). It is used in the evaluations at concrete
  inputs only; the general statements hold for every valuation \<open>K\<close>.
\<close>

definition datasheet :: macros where
  "datasheet =
     \<lparr>AHTXX_START_MEASUREMENT_REG = 0xAC, AHTXX_START_MEASUREMENT_CTRL = 0x33,
      AHTXX_START_MEASUREMENT_CTRL_NOP = 0x00, AHTXX_SOFT_RESET_REG = 0xBA,
      AHTXX_STATUS_REG = 0x71, AHT1X_INIT_REG = 0xE1, AHT2X_INIT_REG = 0xBE,
      AHTXX_INIT_CTRL_CAL_ON = 0x08, AHT1X_INIT_CTRL_NORMAL_MODE = 0x00,
      AHT1X_INIT_CTRL_CYCLE_MODE = 0x20, AHT1X_INIT_CTRL_CMD_MODE = 0x40,
      AHTXX_INIT_CTRL_NOP = 0x00, AHTXX_CMD_DELAY = 10, AHTXX_MEASUREMENT_DELAY = 80,
      AHTXX_SOFT_RESET_DELAY = 20\<rparr>"

text \<open>
  A bus at rest with a finite script: the results of the transmissions and the answers to
  the read requests, in order; beyond the script every transmission succeeds and no byte
  arrives.
\<close>

definition bus :: "u8 list \<Rightarrow> u8 list list \<Rightarrow> world" where
  "bus es rs =
     \<lparr>endResult = (\<lambda>n. if n < length es then es ! n else 0),
      response = (\<lambda>n. if n < length rs then rs ! n else []),
      ends = 0, reqs = 0, rxBuffer = [], trace = []\<rparr>"

text \<open>The content of \<^verbatim>\<open>_rawData[]\<close> given by its first bytes, the others being 0.\<close>

definition frame_of :: "u8 list \<Rightarrow> nat \<Rightarrow> u8" where
  "frame_of bs i = (if i < length bs then bs ! i else 0)"

section \<open>Vocabulary of the statements\<close>

text \<open>The frame length of a variant, as \<^verbatim>\<open>_readMeasurement()\<close> computes \<^verbatim>\<open>dataSize\<close>.\<close>

definition frameLength :: "AHTXX_I2C_SENSOR \<Rightarrow> u8" where
  "frameLength sensor = (if sensor = AHT1x_SENSOR then 6 else 7)"

text \<open>The busy bit of a status byte, as \<^verbatim>\<open>_getBusy()\<close> tests it.\<close>

definition busyBit :: "u8 \<Rightarrow> bool" where
  "busyBit b = (b AND AHTXX_STATUS_CTRL_BUSY = AHTXX_STATUS_CTRL_BUSY)"

text \<open>The bus operations of the trigger step.\<close>

definition triggerEvents :: "macros \<Rightarrow> AHTxx \<Rightarrow> event list" where
  "triggerEvents K s =
     [BeginTransmission (address s), Write (AHTXX_START_MEASUREMENT_REG K),
      Write (AHTXX_START_MEASUREMENT_CTRL K), Write (AHTXX_START_MEASUREMENT_CTRL_NOP K),
      EndTransmission True]"

text \<open>The raw frame after the bytes \<open>bs\<close> have been copied to its beginning.\<close>

definition refreshed :: "AHTxx \<Rightarrow> u8 list \<Rightarrow> nat \<Rightarrow> u8" where
  "refreshed s bs = (\<lambda>k. if k < length bs then bs ! k else rawData s k)"

subsection \<open>The decoding and the checksum in the words of the specification\<close>

text \<open>
  Section 4.3: the 20-bit integer \<^verbatim>\<open>(frame[1] << 12) | (frame[2] << 4) | (frame[3] >> 4)\<close>,
  and the value integer / 2^20 * 100 in exact arithmetic.
\<close>

definition humidity_bits :: "(nat \<Rightarrow> u8) \<Rightarrow> u32" where
  "humidity_bits frame =
     push_bit 12 (ucast (frame 1)) OR push_bit 4 (ucast (frame 2)) OR
     ucast (drop_bit 4 (frame 3))"

definition humidity_exact :: "nat \<Rightarrow> rat" where
  "humidity_exact n = of_nat n / 2 ^ 20 * 100"

text \<open>
  Section 4.3: the 20-bit integer
  \<^verbatim>\<open>((frame[3] & 0x0F) << 16) | (frame[4] << 8) | frame[5]\<close>, and the value
  integer / 2^20 * 200 - 50 in exact arithmetic.
\<close>

definition temperature_bits :: "(nat \<Rightarrow> u8) \<Rightarrow> u32" where
  "temperature_bits frame =
     push_bit 16 (ucast (frame 3 AND 0x0F)) OR push_bit 8 (ucast (frame 4)) OR
     ucast (frame 5)"

definition temperature_exact :: "nat \<Rightarrow> rat" where
  "temperature_exact n = of_nat n / 2 ^ 20 * 200 - 50"

text \<open>A frame whose humidity bits, respectively temperature bits, are the 20-bit integer.\<close>

definition encodesHumidity :: "(nat \<Rightarrow> u8) \<Rightarrow> nat \<Rightarrow> bool" where
  "encodesHumidity frame h =
     (h < 2 ^ 20 \<and> unat (frame 1) = h div 2 ^ 12 \<and> unat (frame 2) = h div 2 ^ 4 mod 2 ^ 8 \<and>
      unat (frame 3) div 2 ^ 4 = h mod 2 ^ 4)"

definition encodesTemperature :: "(nat \<Rightarrow> u8) \<Rightarrow> nat \<Rightarrow> bool" where
  "encodesTemperature frame t =
     (t < 2 ^ 20 \<and> unat (frame 3) mod 2 ^ 4 = t div 2 ^ 16 \<and>
      unat (frame 4) = t div 2 ^ 8 mod 2 ^ 8 \<and> unat (frame 5) = t mod 2 ^ 8)"

text \<open>
  Section 4.4: the register starts at 0xFF; each byte is XORed into it and followed by 8
  turns of "shift left, and XOR with 0x31 if the top bit was set", on 8 bits; the result is
  the register, with no final XOR.
\<close>

definition crc8_turn :: "u8 \<Rightarrow> u8" where
  "crc8_turn c = (if bit c 7 then push_bit 1 c XOR 0x31 else push_bit 1 c)"

definition crc8_spec :: "u8 list \<Rightarrow> u8" where
  "crc8_spec bytes = fold (\<lambda>b c. (crc8_turn ^^ 8) (c XOR b)) bytes 0xFF"

section \<open>Collections of defining equations\<close>

lemmas status_defs =
  AHTXX_NO_ERROR_def AHTXX_BUSY_ERROR_def AHTXX_ACK_ERROR_def AHTXX_DATA_ERROR_def
  AHTXX_CRC8_ERROR_def

lemmas flag_defs = AHTXX_FORCE_READ_DATA_def AHTXX_USE_READ_DATA_def

lemmas Wire_defs =
  Wire_beginTransmission_def Wire_write_def Wire_endTransmission_def Wire_requestFrom_def
  Wire_available_def Wire_read_def delay_def

declare crcBits.simps [simp del] crcBytes.simps [simp del] readBytes.simps [simp del]

section \<open>The rounding of single precision\<close>

lemma pow2_less_iff: "(2::rat) powi m < 2 powi n \<longleftrightarrow> m < n"
proof
  assume "(2::rat) powi m < 2 powi n"
  show "m < n"
  proof (rule ccontr)
    assume "\<not> m < n"
    then have "(2::rat) powi n \<le> 2 powi m"
      by (intro power_int_increasing) auto
    with \<open>(2::rat) powi m < 2 powi n\<close> show False by simp
  qed
next
  assume "m < n"
  then show "(2::rat) powi m < 2 powi n"
    by (intro power_int_strict_increasing) auto
qed

lemma pow2_le_iff: "(2::rat) powi m \<le> 2 powi n \<longleftrightarrow> m \<le> n"
  using pow2_less_iff [of n m] by (auto simp: not_less [symmetric])

lemma pow2_pos: "0 < (2::rat) powi n"
  by simp

lemma exponent_bounds:
  assumes "x \<noteq> 0"
  shows "2 powi exponent x \<le> \<bar>x\<bar> \<and> \<bar>x\<bar> < 2 powi (exponent x + 1)"
proof (cases "1 \<le> \<bar>x\<bar>")
  case True
  let ?n = "\<lfloor>\<bar>x\<bar>\<rfloor>"
  have n: "0 < ?n" using True by simp
  have bl: "1 \<le> bitlen ?n"
    using n bitlen_eq_zero_iff [of ?n] bitlen_nonneg [of ?n] by linarith
  have e: "exponent x = bitlen ?n - 1"
    using True by (simp add: exponent_def)
  from bitlen_bounds [OF n]
  have a: "2 ^ nat (bitlen ?n - 1) \<le> ?n" and b: "?n < 2 ^ nat (bitlen ?n)" by simp_all
  have "(2::rat) powi (bitlen ?n - 1) = of_int (2 ^ nat (bitlen ?n - 1))"
    using bl by (simp add: power_int_nonneg_exp)
  also have "\<dots> \<le> of_int ?n" using a by (simp only: of_int_le_iff)
  also have "\<dots> \<le> \<bar>x\<bar>" by simp
  finally have 1: "2 powi exponent x \<le> \<bar>x\<bar>" by (simp add: e)
  have "\<bar>x\<bar> < of_int (?n + 1)" by linarith
  also have "\<dots> \<le> of_int (2 ^ nat (bitlen ?n))"
    using b by (simp only: of_int_le_iff)
  also have "\<dots> = (2::rat) powi (bitlen ?n)"
    using bl by (simp add: power_int_nonneg_exp)
  finally have 2: "\<bar>x\<bar> < 2 powi (exponent x + 1)" by (simp add: e)
  from 1 2 show ?thesis ..
next
  case False
  define y where "y = 1 / \<bar>x\<bar>"
  have xpos: "0 < \<bar>x\<bar>" using assms by simp
  have y1: "1 < y" using False xpos by (simp add: y_def)
  define m where "m = \<lceil>y\<rceil> - 1"
  have m: "0 < m" using y1 unfolding m_def by linarith
  have my: "of_int m < y" "y \<le> of_int (m + 1)" unfolding m_def by linarith+
  define k where "k = bitlen m"
  have k: "1 \<le> k"
    using m bitlen_eq_zero_iff [of m] bitlen_nonneg [of m] unfolding k_def by linarith
  have e: "exponent x = - k"
    using False by (simp add: exponent_def k_def m_def y_def)
  from bitlen_bounds [OF m]
  have a: "2 ^ nat (k - 1) \<le> m" and b: "m < 2 ^ nat k" by (simp_all add: k_def)
  have "y \<le> of_int (m + 1)" by fact
  also have "\<dots> \<le> of_int (2 ^ nat k)" using b by (simp only: of_int_le_iff)
  also have "\<dots> = (2::rat) powi k" using k by (simp add: power_int_nonneg_exp)
  finally have "y \<le> 2 powi k" .
  then have "1 / (2 powi k) \<le> 1 / y"
    using y1 by (intro divide_left_mono) auto
  then have 1: "2 powi exponent x \<le> \<bar>x\<bar>"
    using xpos by (simp add: e y_def power_int_minus_divide)
  have "(2::rat) powi (k - 1) = of_int (2 ^ nat (k - 1))"
    using k by (simp add: power_int_nonneg_exp)
  also have "\<dots> \<le> of_int m" using a by (simp only: of_int_le_iff)
  also have "\<dots> < y" by fact
  finally have "(2::rat) powi (k - 1) < y" .
  then have "1 / y < 1 / (2 powi (k - 1))"
    using y1 by (intro divide_strict_left_mono mult_pos_pos) auto
  moreover have "(2::rat) powi (exponent x + 1) = 1 / (2 powi (k - 1))"
    using power_int_minus_divide [of "2::rat" "k - 1"] by (simp add: e)
  ultimately have 2: "\<bar>x\<bar> < 2 powi (exponent x + 1)"
    using xpos by (simp add: y_def)
  from 1 2 show ?thesis ..
qed

lemma exponent_unique:
  assumes "2 powi e \<le> \<bar>x\<bar>" and "\<bar>x\<bar> < 2 powi (e + 1)"
  shows "exponent x = e"
proof -
  have "0 < \<bar>x\<bar>" using assms(1) pow2_pos [of e] by linarith
  then have "x \<noteq> 0" by simp
  from exponent_bounds [OF this]
  have "2 powi exponent x \<le> \<bar>x\<bar>" "\<bar>x\<bar> < 2 powi (exponent x + 1)" by simp_all
  with assms have "(2::rat) powi e < 2 powi (exponent x + 1)"
    "(2::rat) powi exponent x < 2 powi (e + 1)" by linarith+
  then show ?thesis by (simp add: pow2_less_iff)
qed

lemma rne_of_int [simp]: "rne (of_int n) = n"
  by (simp add: rne_def)

lemma rne_error: "\<bar>of_int (rne q) - q\<bar> \<le> 1 / 2"
proof -
  have "of_int \<lfloor>q\<rfloor> \<le> q" "q < of_int \<lfloor>q\<rfloor> + 1" by linarith+
  then show ?thesis
    by (auto simp: rne_def Let_def)
qed

lemma rne_ge: "of_int n \<le> q \<Longrightarrow> n \<le> rne q"
proof -
  assume "of_int n \<le> q"
  then have "n \<le> \<lfloor>q\<rfloor>" by (simp add: le_floor_iff)
  then show ?thesis by (auto simp: rne_def Let_def)
qed

lemma rne_le: "q \<le> of_int n \<Longrightarrow> rne q \<le> n"
proof -
  assume a: "q \<le> of_int n"
  show ?thesis
  proof (cases "q = of_int \<lfloor>q\<rfloor>")
    case True
    then have "rne q = \<lfloor>q\<rfloor>" by (metis rne_of_int)
    moreover have "\<lfloor>q\<rfloor> \<le> n" using a by (simp add: floor_le_iff)
    ultimately show ?thesis by simp
  next
    case False
    then have "of_int \<lfloor>q\<rfloor> < q" by (metis of_int_floor_le order_le_less)
    with a have "of_int \<lfloor>q\<rfloor> < (of_int n :: rat)" by linarith
    then have "\<lfloor>q\<rfloor> + 1 \<le> n" by simp
    then show ?thesis by (auto simp: rne_def Let_def)
  qed
qed

lemma rne_near: "\<bar>q - of_int n\<bar> < 1 / 2 \<Longrightarrow> rne q = n"
proof -
  assume a: "\<bar>q - of_int n\<bar> < 1 / 2"
  have e: "\<bar>of_int (rne q) - q\<bar> \<le> 1 / 2" by (rule rne_error)
  from a e have "\<bar>(of_int (rne q) :: rat) - of_int n\<bar> < 1" by linarith
  then have "\<bar>rne q - n\<bar> < 1"
    by (metis of_int_diff of_int_abs of_int_less_1_iff)
  then show ?thesis by simp
qed

lemma rne_tie: "q = of_int n + 1 / 2 \<Longrightarrow> rne q = (if even n then n else n + 1)"
proof -
  assume q: "q = of_int n + 1 / 2"
  then have "\<lfloor>q\<rfloor> = n" by (simp add: floor_unique)
  with q show ?thesis by (simp add: rne_def Let_def)
qed


lemma fl_0 [simp]: "fl 0 = 0"
  by (simp add: fl_def)

lemma fl_eq:
  assumes "2 powi e \<le> \<bar>x\<bar>" and "\<bar>x\<bar> < 2 powi (e + 1)" and "- 126 \<le> e"
  shows "fl x = of_int (rne (x / 2 powi (e - 23))) * 2 powi (e - 23)"
proof -
  have "0 < \<bar>x\<bar>" using assms(1) pow2_pos [of e] by linarith
  then have "x \<noteq> 0" by simp
  moreover have "exponent x = e" using assms(1,2) by (rule exponent_unique)
  moreover have "max (e - 23) (- 149) = e - 23" using assms(3) by simp
  ultimately show ?thesis by (simp add: fl_def Let_def)
qed

lemma fl_error_ulp:
  assumes "x \<noteq> 0"
  shows "\<bar>fl x - x\<bar> \<le> 2 powi (max (exponent x - 23) (- 149)) / 2"
proof -
  define u :: rat where "u = 2 powi (max (exponent x - 23) (- 149))"
  have u: "0 < u" by (simp add: u_def)
  have "\<bar>of_int (rne (x / u)) - x / u\<bar> \<le> 1 / 2" by (rule rne_error)
  then have "\<bar>of_int (rne (x / u)) - x / u\<bar> * u \<le> 1 / 2 * u"
    using u by (intro mult_right_mono) auto
  moreover have "(of_int (rne (x / u)) - x / u) * u = of_int (rne (x / u)) * u - x"
    using u by (simp add: left_diff_distrib)
  then have "\<bar>of_int (rne (x / u)) - x / u\<bar> * u = \<bar>of_int (rne (x / u)) * u - x\<bar>"
    using u by (metis abs_mult abs_of_pos)
  ultimately show ?thesis
    using assms by (simp add: fl_def Let_def u_def [symmetric])
qed

lemma fl_error:
  assumes "2 powi (- 126) \<le> \<bar>x\<bar>"
  shows "\<bar>fl x - x\<bar> \<le> \<bar>x\<bar> / 2 ^ 24"
proof -
  have "0 < \<bar>x\<bar>" using assms pow2_pos [of "- 126"] by linarith
  then have x: "x \<noteq> 0" by simp
  from exponent_bounds [OF x]
  have lo: "2 powi exponent x \<le> \<bar>x\<bar>" and hi: "\<bar>x\<bar> < 2 powi (exponent x + 1)" by simp_all
  from assms hi have "(2::rat) powi (- 126) < 2 powi (exponent x + 1)" by linarith
  then have "- 126 < exponent x + 1" by (simp only: pow2_less_iff)
  then have e: "- 126 \<le> exponent x" by simp
  then have m: "max (exponent x - 23) (- 149) = exponent x - 23" by simp
  have "(2::rat) powi exponent x = 2 powi (exponent x - 23) * 2 powi 23"
    using power_int_add [of "2::rat" "exponent x - 23" 23] by simp
  then have "(2::rat) powi (exponent x - 23) / 2 = 2 powi exponent x / 2 ^ 24"
    by simp
  also have "\<dots> \<le> \<bar>x\<bar> / 2 ^ 24"
    using lo by (intro divide_right_mono) auto
  finally show ?thesis
    using fl_error_ulp [OF x] unfolding m by linarith
qed

lemma fl_error_small:
  assumes "\<bar>x\<bar> \<le> b" and "1 \<le> b"
  shows "\<bar>fl x - x\<bar> \<le> b / 2 ^ 24"
proof (cases "2 powi (- 126) \<le> \<bar>x\<bar>")
  case True
  from fl_error [OF True] have "\<bar>fl x - x\<bar> \<le> \<bar>x\<bar> / 2 ^ 24" .
  also have "\<dots> \<le> b / 2 ^ 24" using assms(1) by (intro divide_right_mono) auto
  finally show ?thesis .
next
  case False
  show ?thesis
  proof (cases "x = 0")
    case True
    with assms show ?thesis by simp
  next
    case x: False
    from exponent_bounds [OF x] have lo: "2 powi exponent x \<le> \<bar>x\<bar>" by simp
    with False have "(2::rat) powi exponent x < 2 powi (- 126)" by linarith
    then have "exponent x < - 126" by (simp only: pow2_less_iff)
    then have m: "max (exponent x - 23) (- 149) = - 149" by simp
    have "(2::rat) powi (- 149) / 2 \<le> 1 / 2 ^ 24"
      by (simp add: power_int_minus_divide)
    also have "\<dots> \<le> b / 2 ^ 24" using assms(2) by (intro divide_right_mono) auto
    finally show ?thesis
      using fl_error_ulp [OF x] unfolding m by linarith
  qed
qed

lemma fl_exact:
  assumes "x = of_int m * 2 powi k" and "\<bar>m\<bar> < 2 ^ 24" and "- 149 \<le> k"
  shows "fl x = x"
proof (cases "x = 0")
  case True
  then show ?thesis by simp
next
  case x: False
  define j where "j = max (exponent x - 23) (- 149)"
  from exponent_bounds [OF x] have lo: "2 powi exponent x \<le> \<bar>x\<bar>" by simp
  have "\<bar>x\<bar> = of_int \<bar>m\<bar> * 2 powi k"
    by (simp add: assms(1) abs_mult)
  also have "\<dots> < of_int (2 ^ 24) * 2 powi k"
    using assms(2) by (intro mult_strict_right_mono) (simp_all only: of_int_less_iff pow2_pos)
  also have "\<dots> = 2 powi (k + 24)"
    by (simp add: power_int_add)
  finally have "(2::rat) powi exponent x < 2 powi (k + 24)" using lo by linarith
  then have "exponent x < k + 24" by (simp add: pow2_less_iff)
  with assms(3) have jk: "j \<le> k" by (simp add: j_def)
  have "(2::rat) powi k = 2 powi (k - j) * 2 powi j"
    by (simp flip: power_int_add)
  also have "(2::rat) powi (k - j) = of_int (2 ^ nat (k - j))"
    using jk by (simp add: power_int_nonneg_exp)
  finally have xj: "x = of_int (m * 2 ^ nat (k - j)) * 2 powi j"
    by (simp add: assms(1))
  then have "x / 2 powi j = of_int (m * 2 ^ nat (k - j))"
    by simp
  then have "of_int (rne (x / 2 powi j)) * 2 powi j = x"
    using xj by (simp only: rne_of_int)
  then show ?thesis
    using x by (simp add: fl_def Let_def j_def [symmetric])
qed

lemma fl_of_int: "\<bar>m\<bar> < 2 ^ 24 \<Longrightarrow> fl (of_int m) = of_int m"
  using fl_exact [of "of_int m" m 0] by simp

lemma fl_of_nat: "n < 2 ^ 24 \<Longrightarrow> fl (of_nat n) = of_nat n"
  using fl_of_int [of "int n"] by simp

lemma fl_ge_int:
  assumes "of_int n \<le> x" and "\<bar>x\<bar> < 2 ^ 24"
  shows "of_int n \<le> fl x"
proof (cases "x = 0")
  case True
  with assms show ?thesis by simp
next
  case x: False
  define j where "j = max (exponent x - 23) (- 149)"
  from exponent_bounds [OF x] have lo: "2 powi exponent x \<le> \<bar>x\<bar>" by simp
  with assms(2) have "(2::rat) powi exponent x < 2 powi 24" by simp
  then have "exponent x < 24" by (simp only: pow2_less_iff)
  then have j: "j \<le> 0" by (simp add: j_def)
  have inv: "1 / (2::rat) powi j = of_int (2 ^ nat (- j))"
    using j power_int_minus_divide [of "2::rat" j, symmetric]
    by (simp add: power_int_nonneg_exp)
  have "of_int (n * 2 ^ nat (- j)) = of_int n * (1 / (2::rat) powi j)"
    by (simp add: inv)
  also have "\<dots> \<le> x * (1 / 2 powi j)"
    using assms(1) by (intro mult_right_mono) auto
  finally have "of_int (n * 2 ^ nat (- j)) \<le> x / 2 powi j" by simp
  then have "n * 2 ^ nat (- j) \<le> rne (x / 2 powi j)" by (rule rne_ge)
  then have "(of_int (n * 2 ^ nat (- j)) :: rat) \<le> of_int (rne (x / 2 powi j))"
    by (simp only: of_int_le_iff)
  then have "of_int (n * 2 ^ nat (- j)) * (2::rat) powi j \<le> of_int (rne (x / 2 powi j)) * 2 powi j"
    by (intro mult_right_mono) auto
  moreover have "of_int (n * 2 ^ nat (- j)) * 2 powi j = (of_int n :: rat)"
    using inv by (simp add: field_simps)
  moreover have "fl x = of_int (rne (x / 2 powi j)) * 2 powi j"
    using x by (simp add: fl_def Let_def j_def)
  ultimately show ?thesis
    by linarith
qed

lemma fl_le_int:
  assumes "x \<le> of_int n" and "\<bar>x\<bar> < 2 ^ 24"
  shows "fl x \<le> of_int n"
proof (cases "x = 0")
  case True
  with assms show ?thesis by simp
next
  case x: False
  define j where "j = max (exponent x - 23) (- 149)"
  from exponent_bounds [OF x] have lo: "2 powi exponent x \<le> \<bar>x\<bar>" by simp
  with assms(2) have "(2::rat) powi exponent x < 2 powi 24" by simp
  then have "exponent x < 24" by (simp only: pow2_less_iff)
  then have j: "j \<le> 0" by (simp add: j_def)
  have inv: "1 / (2::rat) powi j = of_int (2 ^ nat (- j))"
    using j power_int_minus_divide [of "2::rat" j, symmetric]
    by (simp add: power_int_nonneg_exp)
  have "x * (1 / 2 powi j) \<le> of_int n * (1 / (2::rat) powi j)"
    using assms(1) by (intro mult_right_mono) auto
  also have "\<dots> = of_int (n * 2 ^ nat (- j))"
    by (simp add: inv)
  finally have "x / 2 powi j \<le> of_int (n * 2 ^ nat (- j))" by simp
  then have "rne (x / 2 powi j) \<le> n * 2 ^ nat (- j)" by (rule rne_le)
  then have "(of_int (rne (x / 2 powi j)) :: rat) \<le> of_int (n * 2 ^ nat (- j))"
    by (simp only: of_int_le_iff)
  then have "of_int (rne (x / 2 powi j)) * (2::rat) powi j \<le> of_int (n * 2 ^ nat (- j)) * 2 powi j"
    by (intro mult_right_mono) auto
  moreover have "of_int (n * 2 ^ nat (- j)) * 2 powi j = (of_int n :: rat)"
    using inv by (simp add: field_simps)
  moreover have "fl x = of_int (rne (x / 2 powi j)) * 2 powi j"
    using x by (simp add: fl_def Let_def j_def)
  ultimately show ?thesis
    by linarith
qed

section \<open>Bytes and words\<close>

lemma u8_bit: "bit (b :: u8) n \<Longrightarrow> n < 8"
  by (auto dest: bit_imp_le_length)

lemma u8_lt: "unat (b :: u8) < 256"
  using unsigned_less [of b, where ?'a = nat] by simp

lemma low_nibble: "unat (ucast (b :: u8) AND 0x0F :: u32) = unat b mod 16"
proof -
  have "ucast b AND (0x0F :: u32) = take_bit 4 (ucast b)"
    using take_bit_eq_mask [of 4 "ucast b :: u32"] by (simp add: mask_eq_exp_minus_1)
  then show ?thesis
    using u8_lt [of b]
    by (simp add: take_bit_eq_mod unat_mod unsigned_ucast_eq take_bit_nat_eq_self)
qed

subsection \<open>The raw humidity\<close>

lemma rawHumidity_sum:
  "rawHumidity raw =
     push_bit 12 (ucast (raw 1)) + push_bit 4 (ucast (raw 2)) + drop_bit 4 (ucast (raw 3))"
proof -
  have 1: "push_bit 12 (ucast (raw 1) :: u32) AND push_bit 4 (ucast (raw 2)) = 0"
    by (auto simp add: bit_eq_iff bit_simps dest: u8_bit)
  have 2: "(push_bit 12 (ucast (raw 1) :: u32) OR push_bit 4 (ucast (raw 2))) AND
             drop_bit 4 (ucast (raw 3)) = 0"
    by (auto simp add: bit_eq_iff bit_simps dest: u8_bit)
  show ?thesis
    unfolding disjunctive_add_eq_or [OF 1] disjunctive_add_eq_or [OF 2]
    by (simp add: rawHumidity_def)
qed

lemma unat_rawHumidity:
  "unat (rawHumidity raw) = unat (raw 1) * 4096 + unat (raw 2) * 16 + unat (raw 3) div 16"
  unfolding rawHumidity_sum
  using u8_lt [of "raw 1"] u8_lt [of "raw 2"] u8_lt [of "raw 3"]
  by (simp add: unat_word_ariths unat_drop_bit_eq drop_bit_eq_div push_bit_eq_mult
      unsigned_ucast_eq take_bit_nat_eq_self)

lemma rawHumidity_spec: "rawHumidity raw = humidity_bits raw"
proof -
  have "drop_bit 4 (ucast (raw 3) :: u32) = ucast (drop_bit 4 (raw 3))"
    by (auto simp add: bit_eq_iff bit_simps dest: u8_bit)
  then show ?thesis
    by (simp add: rawHumidity_def humidity_bits_def or.assoc)
qed

lemma rawHumidity_lt: "unat (rawHumidity raw) < 2 ^ 20"
  using u8_lt [of "raw 1"] u8_lt [of "raw 2"] u8_lt [of "raw 3"]
  by (simp add: unat_rawHumidity)

lemma rawHumidity_encodes:
  assumes "encodesHumidity raw h"
  shows "unat (rawHumidity raw) = h"
proof -
  from assms have bytes: "unat (raw 1) = h div 4096" "unat (raw 2) = h div 16 mod 256"
      "unat (raw 3) div 16 = h mod 16"
    by (simp_all add: encodesHumidity_def)
  have "h mod (16 * 256) = 16 * (h div 16 mod 256) + h mod 16"
    by (rule mod_mult2_eq)
  moreover have "h = 4096 * (h div 4096) + h mod 4096"
    by simp
  ultimately have "h div 4096 * 4096 + h div 16 mod 256 * 16 + h mod 16 = h"
    by simp
  then show ?thesis
    unfolding unat_rawHumidity bytes .
qed

subsection \<open>The raw temperature\<close>

lemma rawTemperature_sum:
  "rawTemperature raw =
     push_bit 16 (ucast (raw 3) AND 0x0F) + push_bit 8 (ucast (raw 4)) + ucast (raw 5)"
proof -
  have 1: "push_bit 16 (ucast (raw 3) AND 0x0F :: u32) AND push_bit 8 (ucast (raw 4)) = 0"
    by (auto simp add: bit_eq_iff bit_simps dest: u8_bit)
  have 2: "(push_bit 16 (ucast (raw 3) AND 0x0F :: u32) OR push_bit 8 (ucast (raw 4))) AND
             ucast (raw 5) = 0"
    by (auto simp add: bit_eq_iff bit_simps dest: u8_bit)
  show ?thesis
    unfolding disjunctive_add_eq_or [OF 1] disjunctive_add_eq_or [OF 2]
    by (simp add: rawTemperature_def)
qed

lemma unat_rawTemperature:
  "unat (rawTemperature raw) = unat (raw 3) mod 16 * 65536 + unat (raw 4) * 256 + unat (raw 5)"
proof -
  have "unat (raw 3) mod 16 < 16" by simp
  then show ?thesis
    unfolding rawTemperature_sum
    using u8_lt [of "raw 4"] u8_lt [of "raw 5"]
    by (simp add: unat_word_ariths low_nibble push_bit_eq_mult unsigned_ucast_eq
        take_bit_nat_eq_self)
qed

lemma rawTemperature_spec: "rawTemperature raw = temperature_bits raw"
proof -
  have "ucast (raw 3) AND (0x0F :: u32) = ucast (raw 3 AND 0x0F)"
    by (auto simp add: bit_eq_iff bit_simps dest: u8_bit)
  then show ?thesis
    by (simp add: rawTemperature_def temperature_bits_def or.assoc)
qed

lemma rawTemperature_lt: "unat (rawTemperature raw) < 2 ^ 20"
proof -
  have "unat (raw 3) mod 16 < 16" by simp
  then show ?thesis
    using u8_lt [of "raw 4"] u8_lt [of "raw 5"]
    by (simp add: unat_rawTemperature)
qed

lemma rawTemperature_encodes:
  assumes "encodesTemperature raw t"
  shows "unat (rawTemperature raw) = t"
proof -
  from assms have bytes: "unat (raw 3) mod 16 = t div 65536"
      "unat (raw 4) = t div 256 mod 256" "unat (raw 5) = t mod 256"
    by (simp_all add: encodesTemperature_def)
  have "t mod (256 * 256) = 256 * (t div 256 mod 256) + t mod 256"
    by (rule mod_mult2_eq)
  moreover have "t = 65536 * (t div 65536) + t mod 65536"
    by simp
  ultimately have "t div 65536 * 65536 + t div 256 mod 256 * 256 + t mod 256 = t"
    by simp
  then show ?thesis
    unfolding unat_rawTemperature bytes .
qed

section \<open>The checksum loops\<close>

lemma crcShift_turn: "crcShift crc = crc8_turn crc"
proof -
  have top: "(uint crc AND 0x80 \<noteq> 0) = bit crc 7"
    using and_exp_eq_0_iff_not_bit [of "uint crc" 7] by (simp add: bit_uint_iff)
  show ?thesis
    unfolding crcShift_def crc8_turn_def top
    by (simp add: word_wi_log_defs(4) [symmetric] of_int_push_bit)
qed

lemma crcBits_funpow: "crcBits n crc = (crcShift ^^ unat n) crc"
proof (induction n crc rule: crcBits.induct)
  case (1 bitIndex crc)
  show ?case
  proof (cases "bitIndex > 0")
    case False
    then have "bitIndex = 0" by (simp add: word_greater_zero_iff)
    then show ?thesis by (subst crcBits.simps) simp
  next
    case True
    then have "unat bitIndex = Suc (unat (bitIndex - 1))"
      by (simp add: word_greater_zero_iff unat_minus_one unat_gt_0)
    with True "1.IH" show ?thesis
      by (subst crcBits.simps) (simp add: funpow_swap1)
  qed
qed

lemma crcBits_8: "crcBits 8 crc = (crc8_turn ^^ 8) crc"
proof -
  have "crcShift = crc8_turn" by (rule ext) (rule crcShift_turn)
  then show ?thesis by (simp add: crcBits_funpow)
qed

lemma crcBytes_spec:
  "crcBytes 0 raw 0xFF = crc8_spec [raw 0, raw 1, raw 2, raw 3, raw 4, raw 5]"
  by (simp add: crcBytes.simps crc8_spec_def crcBits_8)

lemma crc8_check_value: "crc8_spec [0xBE, 0xEF] = 0x92"
  by code_simp

section \<open>The paths of the measurement transaction\<close>

lemma readBytes_all:
  "unat i + length (rxBuffer w) = unat n \<Longrightarrow>
   readBytes i n s w =
     (s\<lparr>rawData := (\<lambda>k. if unat i \<le> k \<and> k < unat n then rxBuffer w ! (k - unat i) else rawData s k)\<rparr>,
      w\<lparr>rxBuffer := [], trace := trace w @ replicate (length (rxBuffer w)) Read\<rparr>)"
proof (induction i n s w rule: readBytes.induct)
  case (1 i n s w)
  show ?case
  proof (cases "i < n")
    case False
    then have "unat n \<le> unat i" by (simp add: word_less_nat_alt)
    with "1.prems" have "length (rxBuffer w) = 0" "unat i = unat n" by linarith+
    then have "rxBuffer w = []" "unat i = unat n" by simp_all
    moreover from \<open>unat i = unat n\<close>
    have "(\<lambda>k. if unat i \<le> k \<and> k < unat n then rxBuffer w ! (k - unat i) else rawData s k) = rawData s"
      by (auto simp: fun_eq_iff)
    ultimately show ?thesis
      using False by (subst readBytes.simps) simp
  next
    case True
    then have lt: "unat i < unat n" by (simp add: word_less_nat_alt)
    with "1.prems" obtain b bs where bs: "rxBuffer w = b # bs"
      by (cases "rxBuffer w") auto
    have "unat n < 256" by (rule u8_lt)
    with lt have suc: "unat (i + 1) = Suc (unat i)"
      by (simp add: unat_word_ariths)
    let ?w' = "w\<lparr>rxBuffer := bs, trace := trace w @ [Read]\<rparr>"
    let ?s' = "s\<lparr>rawData := (rawData s)(unat i := b)\<rparr>"
    have rd: "Wire_read w = (b, ?w')"
      by (simp add: Wire_read_def bs)
    have len: "unat (i + 1) + length (rxBuffer ?w') = unat n"
      using "1.prems" bs suc by simp
    have ih: "readBytes (i + 1) n ?s' ?w' =
      (?s'\<lparr>rawData := (\<lambda>k. if unat (i + 1) \<le> k \<and> k < unat n then rxBuffer ?w' ! (k - unat (i + 1)) else rawData ?s' k)\<rparr>,
       ?w'\<lparr>rxBuffer := [], trace := trace ?w' @ replicate (length (rxBuffer ?w')) Read\<rparr>)"
      using "1.IH" [OF True rd [symmetric] refl len] .
    have "readBytes i n s w = readBytes (i + 1) n ?s' ?w'"
      using True rd by (subst readBytes.simps) simp
    also note ih
    finally show ?thesis
      using lt by (auto simp: suc bs fun_eq_iff nth_Cons' replicate_append_same)
  qed
qed

lemma readMeasurement_ack:
  assumes "endResult w (ends w) \<noteq> 0"
  shows "readMeasurement K s w =
           (s\<lparr>status := AHTXX_ACK_ERROR\<rparr>,
            w\<lparr>ends := Suc (ends w),
              trace := trace w @
                [BeginTransmission (address s), Write (AHTXX_START_MEASUREMENT_REG K),
                 Write (AHTXX_START_MEASUREMENT_CTRL K), Write (AHTXX_START_MEASUREMENT_CTRL_NOP K),
                 EndTransmission True]\<rparr>)"
  using assms by (simp add: readMeasurement_def Wire_defs)

lemma readMeasurement_status_short:
  assumes "endResult w (ends w) = 0" and "length (response w (reqs w)) \<noteq> 1"
  shows "readMeasurement K s w =
           (s\<lparr>status := AHTXX_DATA_ERROR\<rparr>,
            w\<lparr>ends := Suc (ends w), reqs := Suc (reqs w), rxBuffer := response w (reqs w),
              trace := trace w @ triggerEvents K s @
                [Delay (AHTXX_CMD_DELAY K), RequestFrom (address s) 1 True]\<rparr>)"
  using assms
  by (simp add: readMeasurement_def getBusy_def Wire_defs triggerEvents_def status_defs
      flag_defs)

lemma readMeasurement_bulk_short:
  assumes "endResult w (ends w) = 0" and "response w (reqs w) = [b]"
    and "length (response w (Suc (reqs w))) \<noteq> unat (frameLength (sensorType s))"
  shows "readMeasurement K s w =
           (s\<lparr>rawData := (rawData s)(0 := b), status := AHTXX_DATA_ERROR\<rparr>,
            w\<lparr>ends := Suc (ends w), reqs := Suc (Suc (reqs w)),
              rxBuffer := response w (Suc (reqs w)),
              trace := trace w @ triggerEvents K s @
                [Delay (AHTXX_CMD_DELAY K), RequestFrom (address s) 1 True, Read] @
                (if busyBit b then [Delay (AHTXX_MEASUREMENT_DELAY K - AHTXX_CMD_DELAY K)] else []) @
                [RequestFrom (address s) (frameLength (sensorType s)) True]\<rparr>)"
proof (cases "sensorType s")
  case AHT1x_SENSOR
  with assms show ?thesis
    by (simp add: readMeasurement_def getBusy_def Wire_defs triggerEvents_def status_defs
      flag_defs frameLength_def busyBit_def Let_def)
next
  case AHT2x_SENSOR
  with assms show ?thesis
    by (simp add: readMeasurement_def getBusy_def Wire_defs triggerEvents_def status_defs
      flag_defs frameLength_def busyBit_def Let_def)
qed

lemma readBytes_frame:
  assumes "rxBuffer w = bs" and "length bs = unat n" and "0 < length bs"
  shows "readBytes 0 n (s\<lparr>rawData := (rawData s)(0 := b), status := st\<rparr>) w =
           (s\<lparr>rawData := refreshed s bs, status := st\<rparr>,
            w\<lparr>rxBuffer := [], trace := trace w @ replicate (length bs) Read\<rparr>)"
proof -
  have "(\<lambda>k. if unat (0 :: u8) \<le> k \<and> k < unat n then rxBuffer w ! (k - unat (0 :: u8))
             else rawData (s\<lparr>rawData := (rawData s)(0 := b), status := st\<rparr>) k) = refreshed s bs"
    using assms by (auto simp: fun_eq_iff refreshed_def)
  then show ?thesis
    using assms by (subst readBytes_all) simp_all
qed

lemma readMeasurement_bulk_full:
  assumes "endResult w (ends w) = 0" and "response w (reqs w) = [b]"
    and "response w (Suc (reqs w)) = bs"
    and "length bs = unat (frameLength (sensorType s))"
  shows "readMeasurement K s w =
           (s\<lparr>rawData := refreshed s bs,
              status := (if busyBit (bs ! 0) then AHTXX_BUSY_ERROR
                         else if sensorType s = AHT2x_SENSOR \<and>
                                 crcBytes 0 (refreshed s bs) 0xFF \<noteq> bs ! 6
                         then AHTXX_CRC8_ERROR else AHTXX_NO_ERROR)\<rparr>,
            w\<lparr>ends := Suc (ends w), reqs := Suc (Suc (reqs w)), rxBuffer := [],
              trace := trace w @ triggerEvents K s @
                [Delay (AHTXX_CMD_DELAY K), RequestFrom (address s) 1 True, Read] @
                (if busyBit b then [Delay (AHTXX_MEASUREMENT_DELAY K - AHTXX_CMD_DELAY K)] else []) @
                [RequestFrom (address s) (frameLength (sensorType s)) True] @
                replicate (length bs) Read\<rparr>)"
proof (cases "sensorType s")
  case AHT1x_SENSOR
  with assms have len: "length bs = unat (6 :: u8)" "0 < length bs"
    by (simp_all add: frameLength_def)
  show ?thesis
    using assms AHT1x_SENSOR len
    by (simp add: readMeasurement_def getBusy_def Wire_defs triggerEvents_def status_defs
      flag_defs frameLength_def busyBit_def Let_def
      readBytes_frame refreshed_def checkCRC8_def)
next
  case AHT2x_SENSOR
  with assms have len: "length bs = unat (7 :: u8)" "0 < length bs"
    by (simp_all add: frameLength_def)
  show ?thesis
    using assms AHT2x_SENSOR len
    by (simp add: readMeasurement_def getBusy_def Wire_defs triggerEvents_def status_defs
      flag_defs frameLength_def busyBit_def Let_def
      readBytes_frame refreshed_def checkCRC8_def)
qed

section \<open>The decoded values\<close>

text \<open>
  The integer constants of the two expressions and the error value are numbers of single
  precision: their conversions are exact. So are the conversion of an integer below
  \<open>2 ^ 24\<close> and its division by \<open>2 ^ 20\<close>.
\<close>

lemma float_constants:
  "float_of_int 0x100000 = 1048576" "float_of_int 100 = 100" "float_of_int 200 = 200"
  "float_of_int 50 = 50"
  using fl_of_int [of 1048576] fl_of_int [of 100] fl_of_int [of 200] fl_of_int [of 50]
  by (simp_all add: float_of_int_def)

lemma sentinel_value: "float_of_nat (unat AHTXX_ERROR) = 255"
  using fl_of_nat [of 255] by (simp add: float_of_nat_def AHTXX_ERROR_def)

lemma fraction_exact:
  assumes "n < 2 ^ 24"
  shows "fdiv (float_of_nat n) (float_of_int 0x100000) = of_nat n / 2 ^ 20"
proof -
  have "fl (of_nat n / 2 ^ 20) = of_nat n / 2 ^ 20"
  proof (rule fl_exact)
    show "(of_nat n / 2 ^ 20 :: rat) = of_int (int n) * 2 powi (- 20)"
      by (simp add: power_int_minus_divide)
    show "\<bar>int n\<bar> < 2 ^ 24" using assms by simp
    show "- 149 \<le> (- 20 :: int)" by simp
  qed
  then show ?thesis
    using assms by (simp add: fdiv_def float_of_nat_def fl_of_nat float_constants)
qed

lemma of_nat_20_bits:
  assumes "n < 2 ^ 20"
  shows "(of_nat n :: rat) \<le> 1048575"
proof -
  from assms have "n \<le> 1048575" by simp
  then have "(of_nat n :: rat) \<le> of_nat 1048575" by (simp only: of_nat_le_iff)
  then show ?thesis by simp
qed

subsection \<open>Humidity\<close>

lemma humidityOf_fl:
  assumes "unat h < 2 ^ 20"
  shows "humidityOf h = fl (humidity_exact (unat h))"
proof -
  from assms have "unat h < 2 ^ 24" by simp
  then have eq: "fdiv (float_of_nat (unat h)) (float_of_int 0x100000) = of_nat (unat h) / 2 ^ 20"
    by (rule fraction_exact)
  show ?thesis
    unfolding humidityOf_def eq
    by (simp add: fmul_def float_constants(2) humidity_exact_def del: of_nat_unat)
qed

lemma humidity_exact_bounds:
  assumes "n < 2 ^ 20"
  shows "0 \<le> humidity_exact n \<and> humidity_exact n < 100"
  using of_nat_20_bits [OF assms] by (simp add: humidity_exact_def)

lemma humidity_error:
  assumes "n < 2 ^ 20"
  shows "\<bar>fl (humidity_exact n) - humidity_exact n\<bar> \<le> humidity_exact n / 2 ^ 24"
proof (cases "n = 0")
  case True
  then show ?thesis by (simp add: humidity_exact_def)
next
  case False
  then have "1 \<le> n" by simp
  then have "(of_nat 1 :: rat) \<le> of_nat n" by (simp only: of_nat_le_iff)
  then have lo: "100 / 1048576 \<le> humidity_exact n"
    by (simp add: humidity_exact_def)
  have "(2::rat) powi (- 126) \<le> 100 / 1048576"
    by (simp add: power_int_minus_divide)
  with lo have "2 powi (- 126) \<le> \<bar>humidity_exact n\<bar>" by linarith
  from fl_error [OF this] lo show ?thesis by simp
qed

lemma humidity_float_bounds:
  assumes "n < 2 ^ 20"
  shows "0 \<le> fl (humidity_exact n) \<and> fl (humidity_exact n) < 100"
proof -
  from humidity_exact_bounds [OF assms]
  have b: "0 \<le> humidity_exact n" "humidity_exact n < 100" by simp_all
  have hi: "humidity_exact n \<le> 100 - 100 / 2 ^ 20"
    using of_nat_20_bits [OF assms] by (simp add: humidity_exact_def)
  from b have "of_int 0 \<le> humidity_exact n" "\<bar>humidity_exact n\<bar> < 2 ^ 24" by simp_all
  then have "of_int 0 \<le> fl (humidity_exact n)" by (rule fl_ge_int)
  moreover have "fl (humidity_exact n) < 100"
  proof -
    from humidity_error [OF assms]
    have "\<bar>fl (humidity_exact n) - humidity_exact n\<bar> \<le> humidity_exact n / 16777216"
      by simp
    moreover from hi have "humidity_exact n \<le> 100 - 100 / 1048576" by simp
    ultimately show ?thesis using b by linarith
  qed
  ultimately show ?thesis by simp
qed

lemma humidity_bounds:
  "0 \<le> humidityOf (rawHumidity raw) \<and> humidityOf (rawHumidity raw) < 100"
  using humidity_float_bounds [OF rawHumidity_lt [of raw]]
  by (simp add: humidityOf_fl [OF rawHumidity_lt])

subsection \<open>Temperature\<close>

lemma temperatureOf_fl:
  assumes "unat t < 2 ^ 20"
  shows "temperatureOf t = fl (fl (of_nat (unat t) / 2 ^ 20 * 200) - 50)"
proof -
  from assms have "unat t < 2 ^ 24" by simp
  then have eq: "fdiv (float_of_nat (unat t)) (float_of_int 0x100000) = of_nat (unat t) / 2 ^ 20"
    by (rule fraction_exact)
  show ?thesis
    unfolding temperatureOf_def eq
    by (simp add: fmul_def fsub_def float_constants(3,4) del: of_nat_unat)
qed

lemma temperature_exact_bounds:
  assumes "n < 2 ^ 20"
  shows "- 50 \<le> temperature_exact n \<and> temperature_exact n < 150"
  using of_nat_20_bits [OF assms] by (simp add: temperature_exact_def)

lemma temperature_product:
  assumes "n < 2 ^ 20"
  shows "0 \<le> fl (of_nat n / 2 ^ 20 * 200) \<and> fl (of_nat n / 2 ^ 20 * 200) \<le> 200 \<and>
         \<bar>fl (of_nat n / 2 ^ 20 * 200) - of_nat n / 2 ^ 20 * 200\<bar> \<le>
           (of_nat n / 2 ^ 20 * 200) / 2 ^ 24"
proof -
  define X :: rat where "X = of_nat n / 2 ^ 20 * 200"
  have X: "0 \<le> X" "X \<le> 200" "\<bar>X\<bar> < 2 ^ 24"
    using of_nat_20_bits [OF assms] by (simp_all add: X_def)
  have "of_int 0 \<le> fl X"
    by (rule fl_ge_int) (use X in simp_all)
  moreover have "fl X \<le> of_int 200"
    by (rule fl_le_int) (use X in simp_all)
  ultimately have b: "0 \<le> fl X" "fl X \<le> 200" by simp_all
  have e: "\<bar>fl X - X\<bar> \<le> X / 2 ^ 24"
  proof (cases "n = 0")
    case True
    then show ?thesis by (simp add: X_def)
  next
    case False
    then have "1 \<le> n" by simp
    then have "(of_nat 1 :: rat) \<le> of_nat n" by (simp only: of_nat_le_iff)
    then have lo: "200 / 1048576 \<le> X" by (simp add: X_def)
    have "(2::rat) powi (- 126) \<le> 200 / 1048576"
      by (simp add: power_int_minus_divide)
    with lo have "2 powi (- 126) \<le> \<bar>X\<bar>" by linarith
    from fl_error [OF this] lo show ?thesis by simp
  qed
  from b e show ?thesis by (simp add: X_def)
qed

lemma temperature_error:
  assumes "n < 2 ^ 20"
  shows "\<bar>fl (fl (of_nat n / 2 ^ 20 * 200) - 50) - temperature_exact n\<bar> \<le> 350 / 2 ^ 24"
proof -
  define X :: rat where "X = of_nat n / 2 ^ 20 * 200"
  define p where "p = fl X"
  from temperature_product [OF assms]
  have p: "0 \<le> p" "p \<le> 200" "\<bar>p - X\<bar> \<le> X / 16777216"
    by (simp_all add: p_def X_def)
  have X: "0 \<le> X" "X \<le> 200"
    using of_nat_20_bits [OF assms] by (simp_all add: X_def)
  from p have "\<bar>p - 50\<bar> \<le> 150" by linarith
  then have "\<bar>fl (p - 50) - (p - 50)\<bar> \<le> 150 / 2 ^ 24"
    by (rule fl_error_small) simp
  then have "\<bar>fl (p - 50) - (p - 50)\<bar> \<le> 150 / 16777216" by simp
  with p(3) X have "\<bar>fl (p - 50) - (X - 50)\<bar> \<le> 350 / 16777216" by linarith
  then show ?thesis
    by (simp add: temperature_exact_def p_def X_def)
qed

lemma temperature_float_bounds:
  assumes "n < 2 ^ 20"
  shows "- 50 \<le> fl (fl (of_nat n / 2 ^ 20 * 200) - 50) \<and>
         fl (fl (of_nat n / 2 ^ 20 * 200) - 50) < 150"
proof -
  define X :: rat where "X = of_nat n / 2 ^ 20 * 200"
  define p where "p = fl X"
  from temperature_product [OF assms]
  have p: "0 \<le> p" "p \<le> 200" "\<bar>p - X\<bar> \<le> X / 16777216"
    by (simp_all add: p_def X_def)
  have X: "0 \<le> X" "X \<le> 200 - 200 / 1048576"
    using of_nat_20_bits [OF assms] by (simp_all add: X_def)
  from p have "of_int (- 50) \<le> p - 50" "\<bar>p - 50\<bar> < 2 ^ 24" by simp_all
  then have "of_int (- 50) \<le> fl (p - 50)" by (rule fl_ge_int)
  then have lo: "- 50 \<le> fl (p - 50)" by simp
  from p have "\<bar>p - 50\<bar> \<le> 150" by linarith
  then have "\<bar>fl (p - 50) - (p - 50)\<bar> \<le> 150 / 2 ^ 24"
    by (rule fl_error_small) simp
  then have "\<bar>fl (p - 50) - (p - 50)\<bar> \<le> 150 / 16777216" by simp
  with p(3) X have "fl (p - 50) < 150" by linarith
  with lo show ?thesis by (simp add: p_def X_def)
qed

lemma temperature_bounds:
  "- 50 \<le> temperatureOf (rawTemperature raw) \<and> temperatureOf (rawTemperature raw) < 150"
  using temperature_float_bounds [OF rawTemperature_lt [of raw]]
  by (simp add: temperatureOf_fl [OF rawTemperature_lt])


text \<open>
  Claim C10. For every raw frame the two concatenated integers are below \<open>2 ^ 20\<close>, so
  over exact rational arithmetic integer / 2^20 * 100 lies in [0, 100) and
  integer / 2^20 * 200 - 50 in [-50, 150); the values that the code computes in single
  precision lie in the same intervals.
\<close>

theorem decoded_ranges:
  "unat (rawHumidity raw) < 2 ^ 20 \<and> unat (rawTemperature raw) < 2 ^ 20 \<and>
   0 \<le> humidity_exact (unat (rawHumidity raw)) \<and>
   humidity_exact (unat (rawHumidity raw)) < 100 \<and>
   - 50 \<le> temperature_exact (unat (rawTemperature raw)) \<and>
   temperature_exact (unat (rawTemperature raw)) < 150 \<and>
   0 \<le> humidityOf (rawHumidity raw) \<and> humidityOf (rawHumidity raw) < 100 \<and>
   - 50 \<le> temperatureOf (rawTemperature raw) \<and> temperatureOf (rawTemperature raw) < 150"
  using rawHumidity_lt [of raw] rawTemperature_lt [of raw]
    humidity_exact_bounds [OF rawHumidity_lt [of raw]]
    temperature_exact_bounds [OF rawTemperature_lt [of raw]]
    humidity_bounds [of raw] temperature_bounds [of raw]
  by simp

section \<open>A session on which no bus operation was performed\<close>

text \<open>
  Claim C9. The constructor leaves the status at \<^verbatim>\<open>AHTXX_NO_ERROR\<close>, so the accessors in
  buffered mode do not return the error value: they decode whatever the raw frame holds,
  without touching the session or the bus.
\<close>

theorem fresh_session_reads_buffer:
  "getStatus (AHTxx_new a sensor mem) = AHTXX_NO_ERROR \<and>
   readHumidity K AHTXX_USE_READ_DATA (AHTxx_new a sensor mem) w =
     (humidityOf (rawHumidity mem), AHTxx_new a sensor mem, w) \<and>
   readTemperature K AHTXX_USE_READ_DATA (AHTxx_new a sensor mem) w =
     (temperatureOf (rawTemperature mem), AHTxx_new a sensor mem, w) \<and>
   humidityOf (rawHumidity mem) \<noteq> float_of_nat (unat AHTXX_ERROR) \<and>
   temperatureOf (rawTemperature mem) \<noteq> float_of_nat (unat AHTXX_ERROR)"
  using humidity_bounds [of mem] temperature_bounds [of mem]
  unfolding sentinel_value
  by (simp add: getStatus_def AHTxx_new_def readHumidity_def readTemperature_def flag_defs)

section \<open>The trigger step\<close>

text \<open>
  Claim C6. When the end of the trigger transmission reports any code other than 0, the
  transaction sets the status to \<^verbatim>\<open>AHTXX_ACK_ERROR\<close> and stops: the only bus operations
  are the five ones of the trigger, none of them a read request or a read, and the raw frame
  is the one of before.
\<close>

theorem trigger_nack_aborts:
  assumes "endResult w (ends w) \<noteq> 0"
  shows "readMeasurement K s w =
           (s\<lparr>status := AHTXX_ACK_ERROR\<rparr>,
            w\<lparr>ends := Suc (ends w), trace := trace w @ triggerEvents K s\<rparr>) \<and>
         rawData (fst (readMeasurement K s w)) = rawData s \<and>
         reqs (snd (readMeasurement K s w)) = reqs w \<and>
         Read \<notin> set (triggerEvents K s) \<and>
         (\<forall>a n stop. RequestFrom a n stop \<notin> set (triggerEvents K s))"
  using readMeasurement_ack [OF assms, of K s]
  by (simp add: triggerEvents_def)

text \<open>
  The transaction on a bus whose first transmission ends with code 2 (address not
  acknowledged).
\<close>

theorem trigger_nack_aborts_witness:
  "endResult (bus [2] []) (ends (bus [2] [])) \<noteq> 0 \<and>
   readMeasurement datasheet (AHTxx_new 0x38 AHT1x_SENSOR (frame_of [1, 2, 3])) (bus [2] []) =
     (AHTxx_new 0x38 AHT1x_SENSOR (frame_of [1, 2, 3])\<lparr>status := AHTXX_ACK_ERROR\<rparr>,
      bus [2] []\<lparr>ends := 1,
        trace := [BeginTransmission 0x38, Write 0xAC, Write 0x33, Write 0x00,
                  EndTransmission True]\<rparr>)"
  using trigger_nack_aborts [of "bus [2] []" datasheet "AHTxx_new 0x38 AHT1x_SENSOR (frame_of [1, 2, 3])"]
  by (simp add: bus_def datasheet_def AHTxx_new_def triggerEvents_def)

section \<open>Evaluation of the rounding\<close>

text \<open>
  The rounding of a number whose exponent \<open>e\<close> and scaled significand are given.
\<close>

lemma fl_near:
  assumes "2 powi e \<le> \<bar>x\<bar>" and "\<bar>x\<bar> < 2 powi (e + 1)" and "- 126 \<le> e"
    and "\<bar>x / 2 powi (e - 23) - of_int n\<bar> < 1 / 2"
  shows "fl x = of_int n * 2 powi (e - 23)"
  using fl_eq [OF assms(1-3)] rne_near [OF assms(4)] by simp

lemma fl_tie:
  assumes "2 powi e \<le> \<bar>x\<bar>" and "\<bar>x\<bar> < 2 powi (e + 1)" and "- 126 \<le> e"
    and "x / 2 powi (e - 23) = of_int n + 1 / 2"
  shows "fl x = of_int (if even n then n else n + 1) * 2 powi (e - 23)"
  using fl_eq [OF assms(1-3)] rne_tie [OF assms(4)] by simp

lemma humidity_example: "fl (humidity_exact 734003) = 4587519 / 65536"
  using fl_tie [of 6 "humidity_exact 734003" 9175037]
  by (simp add: humidity_exact_def power_int_minus_divide)

lemma temperature_example: "fl (fl (734003 / 2 ^ 20 * 200) - 50) = 2949119 / 32768"
proof -
  have a: "fl (734003 / 2 ^ 20 * 200) = 4587519 / 32768"
    using fl_tie [of 7 "734003 / 2 ^ 20 * 200" 9175037]
    by (simp add: power_int_minus_divide)
  have b: "fl (4587519 / 32768 - 50) = 2949119 / 32768"
    using fl_near [of 6 "4587519 / 32768 - 50" 11796476]
    by (simp add: power_int_minus_divide)
  show ?thesis unfolding a b by (rule refl)
qed


section \<open>The accessors on a status without error\<close>

text \<open>
  On a status without error the accessors return the rounded values of the expressions.
\<close>

lemma readHumidity_ok:
  assumes "(if readI2C = AHTXX_FORCE_READ_DATA then readMeasurement K s w else (s, w)) = (s', w')"
    and "status s' = AHTXX_NO_ERROR"
  shows "readHumidity K readI2C s w =
           (fl (humidity_exact (unat (rawHumidity (rawData s')))), s', w')"
  using assms by (simp add: readHumidity_def humidityOf_fl [OF rawHumidity_lt])

lemma readTemperature_ok:
  assumes "(if readAHT = AHTXX_FORCE_READ_DATA then readMeasurement K s w else (s, w)) = (s', w')"
    and "status s' = AHTXX_NO_ERROR"
  shows "readTemperature K readAHT s w =
           (fl (fl (of_nat (unat (rawTemperature (rawData s'))) / 2 ^ 20 * 200) - 50), s', w')"
  using assms
  by (simp add: readTemperature_def temperatureOf_fl [OF rawTemperature_lt] del: of_nat_unat)

text \<open>
  Claim C2. When the status that the accessor tests is \<^verbatim>\<open>AHTXX_NO_ERROR\<close> (the status
  of the session in buffered mode, the status after the measurement transaction in forced
  mode), \<^verbatim>\<open>readHumidity\<close> returns the single-precision rounding of integer / 2^20 * 100,
  where the integer is the one that section 4.3 of the specification concatenates from the
  frame; the result is within the relative error \<open>2 ^ -24\<close> of that value; in buffered
  mode the session and the bus are the ones of before; and a frame whose humidity bits
  are \<open>h\<close> decodes to the rounding of \<open>h / 2 ^ 20 * 100\<close>, within the same tolerance.
\<close>

theorem readHumidity_decoding:
  assumes "(if readI2C = AHTXX_FORCE_READ_DATA then readMeasurement K s w else (s, w)) = (s', w')"
    and "status s' = AHTXX_NO_ERROR"
  shows "readHumidity K readI2C s w =
           (fl (humidity_exact (unat (humidity_bits (rawData s')))), s', w') \<and>
         \<bar>fst (readHumidity K readI2C s w) -
            humidity_exact (unat (humidity_bits (rawData s')))\<bar> \<le>
           humidity_exact (unat (humidity_bits (rawData s'))) / 2 ^ 24 \<and>
         (readI2C = AHTXX_USE_READ_DATA \<longrightarrow> s' = s \<and> w' = w) \<and>
         (\<forall>h. encodesHumidity (rawData s') h \<longrightarrow>
              fst (readHumidity K readI2C s w) = fl (of_nat h / 2 ^ 20 * 100) \<and>
              \<bar>fst (readHumidity K readI2C s w) - of_nat h / 2 ^ 20 * 100\<bar> \<le>
                (of_nat h / 2 ^ 20 * 100) / 2 ^ 24)"
proof -
  let ?n = "unat (rawHumidity (rawData s'))"
  have r: "readHumidity K readI2C s w = (fl (humidity_exact ?n), s', w')"
    using assms by (rule readHumidity_ok)
  have e: "\<bar>fl (humidity_exact ?n) - humidity_exact ?n\<bar> \<le> humidity_exact ?n / 2 ^ 24"
    using rawHumidity_lt by (rule humidity_error)
  have enc: "\<forall>h. encodesHumidity (rawData s') h \<longrightarrow>
            fl (humidity_exact ?n) = fl (of_nat h / 2 ^ 20 * 100) \<and>
            \<bar>fl (humidity_exact ?n) - of_nat h / 2 ^ 20 * 100\<bar> \<le>
              (of_nat h / 2 ^ 20 * 100) / 2 ^ 24"
  proof (intro allI impI)
    fix h assume "encodesHumidity (rawData s') h"
    then have "?n = h" by (rule rawHumidity_encodes)
    with e show "fl (humidity_exact ?n) = fl (of_nat h / 2 ^ 20 * 100) \<and>
            \<bar>fl (humidity_exact ?n) - of_nat h / 2 ^ 20 * 100\<bar> \<le>
              (of_nat h / 2 ^ 20 * 100) / 2 ^ 24"
      unfolding humidity_exact_def by simp
  qed
  have same: "readI2C = AHTXX_USE_READ_DATA \<longrightarrow> s' = s \<and> w' = w"
    using assms(1) by (auto simp: flag_defs)
  show ?thesis
    unfolding r fst_conv rawHumidity_spec [symmetric]
    using e enc same by blast
qed

text \<open>
  The frame 1C B3 33 3B 33 33 holds the humidity bits 0xB3333; the exact value
  18350075/262144 lies half way between two numbers of single precision, and the code
  returns 4587519/65536 (the float 0x428BFFFE).
\<close>

theorem readHumidity_decoding_witness:
  "status (AHTxx_new 0x38 AHT1x_SENSOR (frame_of [0x1C, 0xB3, 0x33, 0x3B, 0x33, 0x33])) =
     AHTXX_NO_ERROR \<and>
   encodesHumidity (frame_of [0x1C, 0xB3, 0x33, 0x3B, 0x33, 0x33]) 734003 \<and>
   readHumidity datasheet AHTXX_USE_READ_DATA
     (AHTxx_new 0x38 AHT1x_SENSOR (frame_of [0x1C, 0xB3, 0x33, 0x3B, 0x33, 0x33])) (bus [] []) =
     (4587519 / 65536,
      AHTxx_new 0x38 AHT1x_SENSOR (frame_of [0x1C, 0xB3, 0x33, 0x3B, 0x33, 0x33]), bus [] [])"
proof -
  let ?f = "frame_of [0x1C, 0xB3, 0x33, 0x3B, 0x33, 0x33]"
  let ?s = "AHTxx_new 0x38 AHT1x_SENSOR ?f"
  have a: "(if AHTXX_USE_READ_DATA = AHTXX_FORCE_READ_DATA
            then readMeasurement datasheet ?s (bus [] []) else (?s, bus [] [])) = (?s, bus [] [])"
    by (simp add: flag_defs)
  have b: "status ?s = AHTXX_NO_ERROR"
    by (simp add: AHTxx_new_def)
  have e: "encodesHumidity (rawData ?s) 734003"
    by (simp add: encodesHumidity_def frame_of_def AHTxx_new_def)
  from readHumidity_decoding [OF a b] e
  have "fst (readHumidity datasheet AHTXX_USE_READ_DATA ?s (bus [] [])) =
          fl (of_nat 734003 / 2 ^ 20 * 100)"
    by blast
  then have v: "fst (readHumidity datasheet AHTXX_USE_READ_DATA ?s (bus [] [])) = 4587519 / 65536"
    using humidity_example by (simp add: humidity_exact_def)
  from readHumidity_decoding [OF a b]
  have "snd (readHumidity datasheet AHTXX_USE_READ_DATA ?s (bus [] [])) = (?s, bus [] [])"
    by simp
  with v have "readHumidity datasheet AHTXX_USE_READ_DATA ?s (bus [] []) =
          (4587519 / 65536, ?s, bus [] [])"
    by (metis prod.collapse)
  with b e show ?thesis
    by (simp add: AHTxx_new_def)
qed

text \<open>
  Claim C3, as amended. When the status that the accessor tests is \<^verbatim>\<open>AHTXX_NO_ERROR\<close>,
  \<^verbatim>\<open>readTemperature\<close> returns the value of integer / 2^20 * 200 - 50 computed in single
  precision (the product is rounded, then the difference), where the integer is the one
  that section 4.3 of the specification concatenates from the frame; the result is within
  \<open>350 / 2 ^ 24\<close> of the exact value; in buffered mode the session and the bus are the
  ones of before; and a frame whose temperature bits are \<open>t\<close> decodes to a value within
  \<open>350 / 2 ^ 24\<close> of \<open>t / 2 ^ 20 * 200 - 50\<close>.
\<close>

theorem readTemperature_decoding:
  assumes "(if readAHT = AHTXX_FORCE_READ_DATA then readMeasurement K s w else (s, w)) = (s', w')"
    and "status s' = AHTXX_NO_ERROR"
  shows "readTemperature K readAHT s w =
           (fl (fl (of_nat (unat (temperature_bits (rawData s'))) / 2 ^ 20 * 200) - 50),
            s', w') \<and>
         \<bar>fst (readTemperature K readAHT s w) -
            temperature_exact (unat (temperature_bits (rawData s')))\<bar> \<le> 350 / 2 ^ 24 \<and>
         (readAHT = AHTXX_USE_READ_DATA \<longrightarrow> s' = s \<and> w' = w) \<and>
         (\<forall>t. encodesTemperature (rawData s') t \<longrightarrow>
              fst (readTemperature K readAHT s w) = fl (fl (of_nat t / 2 ^ 20 * 200) - 50) \<and>
              \<bar>fst (readTemperature K readAHT s w) - (of_nat t / 2 ^ 20 * 200 - 50)\<bar> \<le>
                350 / 2 ^ 24)"
proof -
  let ?n = "unat (rawTemperature (rawData s'))"
  let ?r = "fl (fl (of_nat ?n / 2 ^ 20 * 200) - 50)"
  have r: "readTemperature K readAHT s w = (?r, s', w')"
    using assms by (rule readTemperature_ok)
  have e: "\<bar>?r - temperature_exact ?n\<bar> \<le> 350 / 2 ^ 24"
    using rawTemperature_lt by (rule temperature_error)
  have enc: "\<forall>t. encodesTemperature (rawData s') t \<longrightarrow>
            ?r = fl (fl (of_nat t / 2 ^ 20 * 200) - 50) \<and>
            \<bar>?r - (of_nat t / 2 ^ 20 * 200 - 50)\<bar> \<le> 350 / 2 ^ 24"
  proof (intro allI impI)
    fix t assume "encodesTemperature (rawData s') t"
    then have "?n = t" by (rule rawTemperature_encodes)
    with e show "?r = fl (fl (of_nat t / 2 ^ 20 * 200) - 50) \<and>
            \<bar>?r - (of_nat t / 2 ^ 20 * 200 - 50)\<bar> \<le> 350 / 2 ^ 24"
      unfolding temperature_exact_def by simp
  qed
  have same: "readAHT = AHTXX_USE_READ_DATA \<longrightarrow> s' = s \<and> w' = w"
    using assms(1) by (auto simp: flag_defs)
  show ?thesis
    unfolding r fst_conv rawTemperature_spec [symmetric]
    using e enc same by blast
qed

text \<open>
  The frame 1C B3 33 3B 33 33 holds the temperature bits 0xB3333, and the code returns
  2949119/32768 (the float 0x42B3FFFC).
\<close>

theorem readTemperature_decoding_witness:
  "status (AHTxx_new 0x38 AHT1x_SENSOR (frame_of [0x1C, 0xB3, 0x33, 0x3B, 0x33, 0x33])) =
     AHTXX_NO_ERROR \<and>
   encodesTemperature (frame_of [0x1C, 0xB3, 0x33, 0x3B, 0x33, 0x33]) 734003 \<and>
   readTemperature datasheet AHTXX_USE_READ_DATA
     (AHTxx_new 0x38 AHT1x_SENSOR (frame_of [0x1C, 0xB3, 0x33, 0x3B, 0x33, 0x33])) (bus [] []) =
     (2949119 / 32768,
      AHTxx_new 0x38 AHT1x_SENSOR (frame_of [0x1C, 0xB3, 0x33, 0x3B, 0x33, 0x33]), bus [] [])"
proof -
  let ?f = "frame_of [0x1C, 0xB3, 0x33, 0x3B, 0x33, 0x33]"
  let ?s = "AHTxx_new 0x38 AHT1x_SENSOR ?f"
  have a: "(if AHTXX_USE_READ_DATA = AHTXX_FORCE_READ_DATA
            then readMeasurement datasheet ?s (bus [] []) else (?s, bus [] [])) = (?s, bus [] [])"
    by (simp add: flag_defs)
  have b: "status ?s = AHTXX_NO_ERROR"
    by (simp add: AHTxx_new_def)
  have e: "encodesTemperature (rawData ?s) 734003"
    by (simp add: encodesTemperature_def frame_of_def AHTxx_new_def)
  from readTemperature_decoding [OF a b] e
  have "fst (readTemperature datasheet AHTXX_USE_READ_DATA ?s (bus [] [])) =
          fl (fl (of_nat 734003 / 2 ^ 20 * 200) - 50)"
    by blast
  then have v: "fst (readTemperature datasheet AHTXX_USE_READ_DATA ?s (bus [] [])) =
          2949119 / 32768"
    using temperature_example by simp
  from readTemperature_decoding [OF a b]
  have "snd (readTemperature datasheet AHTXX_USE_READ_DATA ?s (bus [] [])) = (?s, bus [] [])"
    by simp
  with v have "readTemperature datasheet AHTXX_USE_READ_DATA ?s (bus [] []) =
          (2949119 / 32768, ?s, bus [] [])"
    by (metis prod.collapse)
  with b e show ?thesis
    by (simp add: AHTxx_new_def)
qed

text \<open>
  Claim C3, as stated, fails: for the temperature bits 0xB3333 the exact value of
  t / 2^20 * 200 - 50 is 11796475/131072, itself a number of single precision, and the
  code returns 11796476/131072.
\<close>

theorem readTemperature_exact_counterexample:
  "status (AHTxx_new 0x38 AHT1x_SENSOR (frame_of [0x1C, 0xB3, 0x33, 0x3B, 0x33, 0x33])) =
     AHTXX_NO_ERROR \<and>
   encodesTemperature (frame_of [0x1C, 0xB3, 0x33, 0x3B, 0x33, 0x33]) 734003 \<and>
   fst (readTemperature datasheet AHTXX_USE_READ_DATA
     (AHTxx_new 0x38 AHT1x_SENSOR (frame_of [0x1C, 0xB3, 0x33, 0x3B, 0x33, 0x33])) (bus [] [])) =
     11796476 / 131072 \<and>
   (734003 / 2 ^ 20 * 200 - 50 :: rat) = 11796475 / 131072 \<and>
   fst (readTemperature datasheet AHTXX_USE_READ_DATA
     (AHTxx_new 0x38 AHT1x_SENSOR (frame_of [0x1C, 0xB3, 0x33, 0x3B, 0x33, 0x33])) (bus [] [])) \<noteq>
     734003 / 2 ^ 20 * 200 - 50"
proof -
  let ?f = "frame_of [0x1C, 0xB3, 0x33, 0x3B, 0x33, 0x33]"
  let ?s = "AHTxx_new 0x38 AHT1x_SENSOR ?f"
  have a: "(if AHTXX_USE_READ_DATA = AHTXX_FORCE_READ_DATA
            then readMeasurement datasheet ?s (bus [] []) else (?s, bus [] [])) = (?s, bus [] [])"
    by (simp add: flag_defs)
  have b: "status ?s = AHTXX_NO_ERROR"
    by (simp add: AHTxx_new_def)
  have e: "encodesTemperature (rawData ?s) 734003"
    by (simp add: encodesTemperature_def frame_of_def AHTxx_new_def)
  then have n: "unat (rawTemperature (rawData ?s)) = 734003"
    by (rule rawTemperature_encodes)
  have "fst (readTemperature datasheet AHTXX_USE_READ_DATA ?s (bus [] [])) =
          fl (fl (of_nat 734003 / 2 ^ 20 * 200) - 50)"
    unfolding readTemperature_ok [OF a b] n by simp
  then have "fst (readTemperature datasheet AHTXX_USE_READ_DATA ?s (bus [] [])) =
          11796476 / 131072"
    using temperature_example by simp
  with b e show ?thesis
    by (simp add: AHTxx_new_def)
qed

section \<open>The accessors on a status with an error\<close>

text \<open>
  Claim C7. When the status that the accessors test is not \<^verbatim>\<open>AHTXX_NO_ERROR\<close>, both return
  the same fixed value, \<^verbatim>\<open>AHTXX_ERROR\<close> as a float, that is 255, and derive nothing from
  the frame; every value decoded from a frame is below it, so it lies outside the range of
  the readings and is not a reading of zero.
\<close>

theorem error_status_returns_sentinel:
  assumes "(if f = AHTXX_FORCE_READ_DATA then readMeasurement K s w else (s, w)) = (s', w')"
    and "status s' \<noteq> AHTXX_NO_ERROR"
  shows "readHumidity K f s w = (float_of_nat (unat AHTXX_ERROR), s', w') \<and>
         readTemperature K f s w = (float_of_nat (unat AHTXX_ERROR), s', w') \<and>
         float_of_nat (unat AHTXX_ERROR) = 255 \<and>
         (\<forall>raw. humidityOf (rawHumidity raw) < float_of_nat (unat AHTXX_ERROR) \<and>
                temperatureOf (rawTemperature raw) < float_of_nat (unat AHTXX_ERROR))"
proof -
  have "humidityOf (rawHumidity raw) < 255 \<and> temperatureOf (rawTemperature raw) < 255" for raw
    using humidity_bounds [of raw] temperature_bounds [of raw] by simp
  then show ?thesis
    using assms
    by (simp add: readHumidity_def readTemperature_def sentinel_value)
qed

text \<open>
  A session whose last transaction ended with a checksum error, read in buffered mode.
\<close>

theorem error_status_returns_sentinel_witness:
  "status (AHTxx_new 0x38 AHT2x_SENSOR (frame_of [0x1C, 0x73, 0x33, 0x35, 0x77, 0xAE, 0x00])
            \<lparr>status := AHTXX_CRC8_ERROR\<rparr>) \<noteq> AHTXX_NO_ERROR \<and>
   fst (readHumidity datasheet AHTXX_USE_READ_DATA
     (AHTxx_new 0x38 AHT2x_SENSOR (frame_of [0x1C, 0x73, 0x33, 0x35, 0x77, 0xAE, 0x00])
            \<lparr>status := AHTXX_CRC8_ERROR\<rparr>) (bus [] [])) = 255 \<and>
   fst (readTemperature datasheet AHTXX_USE_READ_DATA
     (AHTxx_new 0x38 AHT2x_SENSOR (frame_of [0x1C, 0x73, 0x33, 0x35, 0x77, 0xAE, 0x00])
            \<lparr>status := AHTXX_CRC8_ERROR\<rparr>) (bus [] [])) = 255"
proof -
  let ?s = "AHTxx_new 0x38 AHT2x_SENSOR (frame_of [0x1C, 0x73, 0x33, 0x35, 0x77, 0xAE, 0x00])
              \<lparr>status := AHTXX_CRC8_ERROR\<rparr>"
  have a: "(if AHTXX_USE_READ_DATA = AHTXX_FORCE_READ_DATA
            then readMeasurement datasheet ?s (bus [] []) else (?s, bus [] [])) = (?s, bus [] [])"
    by (simp add: flag_defs)
  have b: "status ?s \<noteq> AHTXX_NO_ERROR"
    by (simp add: status_defs)
  from error_status_returns_sentinel [OF a b] b show ?thesis
    by simp
qed

lemma take6_nth:
  assumes "6 \<le> length bs"
  shows "take 6 bs = [bs ! 0, bs ! 1, bs ! 2, bs ! 3, bs ! 4, bs ! 5]"
proof (rule nth_equalityI)
  show "length (take 6 bs) = length [bs ! 0, bs ! 1, bs ! 2, bs ! 3, bs ! 4, bs ! 5]"
    using assms by simp
next
  fix i assume "i < length (take 6 bs)"
  then have "i < 6" by simp
  then consider "i = 0" | "i = 1" | "i = 2" | "i = 3" | "i = 4" | "i = 5"
    by linarith
  then show "take 6 bs ! i = [bs ! 0, bs ! 1, bs ! 2, bs ! 3, bs ! 4, bs ! 5] ! i"
    by cases simp_all
qed

lemma crcBytes_refreshed:
  assumes "6 \<le> length bs"
  shows "crcBytes 0 (refreshed s bs) 0xFF = crc8_spec (take 6 bs)"
proof -
  have "refreshed s bs k = bs ! k" if "k < 6" for k
    using that assms by (simp add: refreshed_def)
  then show ?thesis
    using assms by (simp add: crcBytes_spec take6_nth)
qed

lemma frameLength_cases:
  "unat (frameLength sensor) = (if sensor = AHT1x_SENSOR then 6 else 7)"
  by (simp add: frameLength_def)

section \<open>The status after the measurement transaction\<close>

text \<open>
  The status that \<^verbatim>\<open>_readMeasurement()\<close> leaves, by the answers of the transport.
\<close>

lemma readMeasurement_status:
  "status (fst (readMeasurement K s w)) =
     (if endResult w (ends w) \<noteq> 0 then AHTXX_ACK_ERROR
      else if length (response w (reqs w)) \<noteq> 1 then AHTXX_DATA_ERROR
      else if length (response w (Suc (reqs w))) \<noteq> unat (frameLength (sensorType s))
      then AHTXX_DATA_ERROR
      else if busyBit (response w (Suc (reqs w)) ! 0) then AHTXX_BUSY_ERROR
      else if sensorType s = AHT2x_SENSOR \<and>
              crc8_spec (take 6 (response w (Suc (reqs w)))) \<noteq> response w (Suc (reqs w)) ! 6
      then AHTXX_CRC8_ERROR else AHTXX_NO_ERROR)"
proof (cases "endResult w (ends w) = 0")
  case False
  then show ?thesis by (simp add: readMeasurement_ack)
next
  case ack: True
  show ?thesis
  proof (cases "length (response w (reqs w)) = 1")
    case False
    with ack show ?thesis by (simp add: readMeasurement_status_short)
  next
    case True
    then obtain b where b: "response w (reqs w) = [b]"
      by (cases "response w (reqs w)") auto
    show ?thesis
    proof (cases "length (response w (Suc (reqs w))) = unat (frameLength (sensorType s))")
      case False
      with ack b show ?thesis by (simp add: readMeasurement_bulk_short)
    next
      case len: True
      then have "6 \<le> length (response w (Suc (reqs w)))"
        by (simp add: frameLength_cases)
      with ack b len show ?thesis
        by (simp add: readMeasurement_bulk_full [OF ack b refl len] crcBytes_refreshed)
    qed
  qed
qed

section \<open>A bulk read of the wrong length\<close>

text \<open>
  Claim C1, as amended. When the trigger is acknowledged, the status read delivers its
  byte \<open>b\<close> and the bulk read delivers a number of bytes other than the frame length, the
  status becomes \<^verbatim>\<open>AHTXX_DATA_ERROR\<close> and the bytes of the frame other than byte 0 are
  the ones of before; byte 0 holds \<open>b\<close>, which \<^verbatim>\<open>_getBusy()\<close> stored before the bulk
  read.
\<close>

theorem short_bulk_read_is_data_error:
  assumes "endResult w (ends w) = 0" and "response w (reqs w) = [b]"
    and "length (response w (Suc (reqs w))) \<noteq> unat (frameLength (sensorType s))"
  shows "status (fst (readMeasurement K s w)) = AHTXX_DATA_ERROR \<and>
         rawData (fst (readMeasurement K s w)) = (rawData s)(0 := b) \<and>
         (\<forall>i. i \<noteq> 0 \<longrightarrow> rawData (fst (readMeasurement K s w)) i = rawData s i)"
  by (simp add: readMeasurement_bulk_short [OF assms])

text \<open>
  A transaction of the variant without trailer whose bulk read delivers 3 bytes.
\<close>

theorem short_bulk_read_is_data_error_witness:
  "endResult (bus [0] [[0x98], [0x98, 0x73, 0x33]]) (ends (bus [0] [[0x98], [0x98, 0x73, 0x33]])) = 0 \<and>
   status (fst (readMeasurement datasheet
     (AHTxx_new 0x38 AHT1x_SENSOR (frame_of [0x1C, 0x73, 0x33, 0x35, 0x77, 0xAE]))
     (bus [0] [[0x98], [0x98, 0x73, 0x33]]))) = AHTXX_DATA_ERROR \<and>
   rawData (fst (readMeasurement datasheet
     (AHTxx_new 0x38 AHT1x_SENSOR (frame_of [0x1C, 0x73, 0x33, 0x35, 0x77, 0xAE]))
     (bus [0] [[0x98], [0x98, 0x73, 0x33]]))) =
     (frame_of [0x1C, 0x73, 0x33, 0x35, 0x77, 0xAE])(0 := 0x98)"
proof -
  let ?w = "bus [0] [[0x98], [0x98, 0x73, 0x33]]"
  let ?s = "AHTxx_new 0x38 AHT1x_SENSOR (frame_of [0x1C, 0x73, 0x33, 0x35, 0x77, 0xAE])"
  have a: "endResult ?w (ends ?w) = 0" by (simp add: bus_def)
  have b: "response ?w (reqs ?w) = [0x98]" by (simp add: bus_def)
  have c: "length (response ?w (Suc (reqs ?w))) \<noteq> unat (frameLength (sensorType ?s))"
    by (simp add: bus_def frameLength_def AHTxx_new_def)
  from short_bulk_read_is_data_error [OF a b c, of datasheet] a show ?thesis
    by (simp add: AHTxx_new_def)
qed

text \<open>
  Claim C1, as stated, fails: on the same transaction the status is \<^verbatim>\<open>AHTXX_DATA_ERROR\<close>
  and byte 0 of the frame has changed from 0x1C to 0x98.
\<close>

theorem short_bulk_read_counterexample:
  "length (response (bus [0] [[0x98], [0x98, 0x73, 0x33]])
             (Suc (reqs (bus [0] [[0x98], [0x98, 0x73, 0x33]])))) \<noteq>
     unat (frameLength AHT1x_SENSOR) \<and>
   status (fst (readMeasurement datasheet
     (AHTxx_new 0x38 AHT1x_SENSOR (frame_of [0x1C, 0x73, 0x33, 0x35, 0x77, 0xAE]))
     (bus [0] [[0x98], [0x98, 0x73, 0x33]]))) = AHTXX_DATA_ERROR \<and>
   rawData (AHTxx_new 0x38 AHT1x_SENSOR (frame_of [0x1C, 0x73, 0x33, 0x35, 0x77, 0xAE])) 0 = 0x1C \<and>
   rawData (fst (readMeasurement datasheet
     (AHTxx_new 0x38 AHT1x_SENSOR (frame_of [0x1C, 0x73, 0x33, 0x35, 0x77, 0xAE]))
     (bus [0] [[0x98], [0x98, 0x73, 0x33]]))) 0 = 0x98"
proof -
  let ?w = "bus [0] [[0x98], [0x98, 0x73, 0x33]]"
  let ?s = "AHTxx_new 0x38 AHT1x_SENSOR (frame_of [0x1C, 0x73, 0x33, 0x35, 0x77, 0xAE])"
  have a: "endResult ?w (ends ?w) = 0" by (simp add: bus_def)
  have b: "response ?w (reqs ?w) = [0x98]" by (simp add: bus_def)
  have c: "length (response ?w (Suc (reqs ?w))) \<noteq> unat (frameLength (sensorType ?s))"
    by (simp add: bus_def frameLength_def AHTxx_new_def)
  have d: "sensorType ?s = AHT1x_SENSOR" by (simp add: AHTxx_new_def)
  from readMeasurement_bulk_short [OF a b c, of datasheet] c d show ?thesis
    by (simp add: AHTxx_new_def frame_of_def)
qed

section \<open>The integrity check\<close>

text \<open>
  The checksum of the six bytes used in the evaluations below.
\<close>

lemma crc8_example: "crc8_spec [0x1C, 0x73, 0x33, 0x35, 0x77, 0xAE] = 0x49"
  by code_simp

lemma getBusy_forced_busy:
  assumes "response w (reqs w) = [b]" and "busyBit b"
  shows "getBusy K AHTXX_FORCE_READ_DATA s w =
           (AHTXX_BUSY_ERROR, s\<lparr>rawData := (rawData s)(0 := b), status := AHTXX_BUSY_ERROR\<rparr>,
            w\<lparr>reqs := Suc (reqs w), rxBuffer := [],
              trace := trace w @ [Delay (AHTXX_CMD_DELAY K), RequestFrom (address s) 1 True, Read]\<rparr>)"
  using assms by (simp add: getBusy_def Wire_defs flag_defs busyBit_def)

lemma getBusy_buffered:
  "getBusy K AHTXX_USE_READ_DATA s w =
     (if busyBit (rawData s 0) then AHTXX_BUSY_ERROR else AHTXX_NO_ERROR,
      s\<lparr>status := if busyBit (rawData s 0) then AHTXX_BUSY_ERROR else AHTXX_NO_ERROR\<rparr>, w)"
  by (simp add: getBusy_def flag_defs busyBit_def)

text \<open>
  Claim C4. The loops of \<^verbatim>\<open>_checkCRC8()\<close> compute the checksum of section 4.4 of the
  specification over the bytes 0 to 5 of the frame, and the check compares it with byte 6 for
  the variant with a trailer and passes for the other one. A transaction that reaches the
  check (trigger acknowledged, status byte read, frame of the full length read, busy bit of
  its first byte clear) ends with \<^verbatim>\<open>AHTXX_CRC8_ERROR\<close> when the variant has a trailer and
  the checksum of the first six bytes read differs from the seventh, and with
  \<^verbatim>\<open>AHTXX_NO_ERROR\<close> otherwise; and no other transaction ends with
  \<^verbatim>\<open>AHTXX_CRC8_ERROR\<close>.
\<close>

theorem integrity_check:
  "crcBytes 0 raw 0xFF = crc8_spec [raw 0, raw 1, raw 2, raw 3, raw 4, raw 5] \<and>
   checkCRC8 s =
     (if sensorType s = AHT2x_SENSOR
      then crc8_spec [rawData s 0, rawData s 1, rawData s 2, rawData s 3, rawData s 4,
             rawData s 5] = rawData s 6
      else True) \<and>
   (endResult w (ends w) = 0 \<and> length (response w (reqs w)) = 1 \<and>
    length (response w (Suc (reqs w))) = unat (frameLength (sensorType s)) \<and>
    \<not> busyBit (response w (Suc (reqs w)) ! 0) \<longrightarrow>
      status (fst (readMeasurement K s w)) =
        (if sensorType s = AHT2x_SENSOR \<and>
            crc8_spec (take 6 (response w (Suc (reqs w)))) \<noteq> response w (Suc (reqs w)) ! 6
         then AHTXX_CRC8_ERROR else AHTXX_NO_ERROR)) \<and>
   (status (fst (readMeasurement K s w)) = AHTXX_CRC8_ERROR \<longleftrightarrow>
      sensorType s = AHT2x_SENSOR \<and> endResult w (ends w) = 0 \<and>
      length (response w (reqs w)) = 1 \<and> length (response w (Suc (reqs w))) = 7 \<and>
      \<not> busyBit (response w (Suc (reqs w)) ! 0) \<and>
      crc8_spec (take 6 (response w (Suc (reqs w)))) \<noteq> response w (Suc (reqs w)) ! 6)"
proof -
  have 1: "crcBytes 0 raw 0xFF = crc8_spec [raw 0, raw 1, raw 2, raw 3, raw 4, raw 5]"
    by (rule crcBytes_spec)
  have 2: "checkCRC8 s =
     (if sensorType s = AHT2x_SENSOR
      then crc8_spec [rawData s 0, rawData s 1, rawData s 2, rawData s 3, rawData s 4,
             rawData s 5] = rawData s 6
      else True)"
    by (simp add: checkCRC8_def crcBytes_spec)
  have 3: "endResult w (ends w) = 0 \<and> length (response w (reqs w)) = 1 \<and>
    length (response w (Suc (reqs w))) = unat (frameLength (sensorType s)) \<and>
    \<not> busyBit (response w (Suc (reqs w)) ! 0) \<longrightarrow>
      status (fst (readMeasurement K s w)) =
        (if sensorType s = AHT2x_SENSOR \<and>
            crc8_spec (take 6 (response w (Suc (reqs w)))) \<noteq> response w (Suc (reqs w)) ! 6
         then AHTXX_CRC8_ERROR else AHTXX_NO_ERROR)"
    by (simp add: readMeasurement_status)
  have 4: "status (fst (readMeasurement K s w)) = AHTXX_CRC8_ERROR \<longleftrightarrow>
      sensorType s = AHT2x_SENSOR \<and> endResult w (ends w) = 0 \<and>
      length (response w (reqs w)) = 1 \<and> length (response w (Suc (reqs w))) = 7 \<and>
      \<not> busyBit (response w (Suc (reqs w)) ! 0) \<and>
      crc8_spec (take 6 (response w (Suc (reqs w)))) \<noteq> response w (Suc (reqs w)) ! 6"
    by (cases "sensorType s") (auto simp add: readMeasurement_status status_defs frameLength_def)
  from 1 2 3 4 show ?thesis by blast
qed

text \<open>
  Two transactions of the variant with a trailer on the same six bytes, the first with the
  trailer 0x00 and the second with the trailer 0x49.
\<close>

theorem integrity_check_witness:
  "length (response (bus [0] [[0x1C], [0x1C, 0x73, 0x33, 0x35, 0x77, 0xAE, 0x00]]) 1) = 7 \<and>
   crc8_spec (take 6 [0x1C, 0x73, 0x33, 0x35, 0x77, 0xAE, 0x00]) = 0x49 \<and>
   status (fst (readMeasurement datasheet
     (AHTxx_new 0x38 AHT2x_SENSOR (frame_of []))
     (bus [0] [[0x1C], [0x1C, 0x73, 0x33, 0x35, 0x77, 0xAE, 0x00]]))) = AHTXX_CRC8_ERROR \<and>
   status (fst (readMeasurement datasheet
     (AHTxx_new 0x38 AHT2x_SENSOR (frame_of []))
     (bus [0] [[0x1C], [0x1C, 0x73, 0x33, 0x35, 0x77, 0xAE, 0x49]]))) = AHTXX_NO_ERROR"
proof -
  let ?s = "AHTxx_new 0x38 AHT2x_SENSOR (frame_of [])"
  let ?bad = "bus [0] [[0x1C], [0x1C, 0x73, 0x33, 0x35, 0x77, 0xAE, 0x00]]"
  let ?good = "bus [0] [[0x1C], [0x1C, 0x73, 0x33, 0x35, 0x77, 0xAE, 0x49]]"
  have t: "sensorType ?s = AHT2x_SENSOR" by (simp add: AHTxx_new_def)
  have bad: "endResult ?bad (ends ?bad) = 0 \<and> length (response ?bad (reqs ?bad)) = 1 \<and>
      length (response ?bad (Suc (reqs ?bad))) = unat (frameLength (sensorType ?s)) \<and>
      \<not> busyBit (response ?bad (Suc (reqs ?bad)) ! 0)"
    by (simp add: bus_def frameLength_def t busyBit_def AHTXX_STATUS_CTRL_BUSY_def)
  have good: "endResult ?good (ends ?good) = 0 \<and> length (response ?good (reqs ?good)) = 1 \<and>
      length (response ?good (Suc (reqs ?good))) = unat (frameLength (sensorType ?s)) \<and>
      \<not> busyBit (response ?good (Suc (reqs ?good)) ! 0)"
    by (simp add: bus_def frameLength_def t busyBit_def AHTXX_STATUS_CTRL_BUSY_def)
  have c: "crc8_spec (take 6 [0x1C, 0x73, 0x33, 0x35, 0x77, 0xAE, 0x00]) = 0x49"
          "crc8_spec (take 6 [0x1C, 0x73, 0x33, 0x35, 0x77, 0xAE, 0x49]) = 0x49"
    by (simp_all add: crc8_example)
  have rb: "response ?bad (Suc (reqs ?bad)) = [0x1C, 0x73, 0x33, 0x35, 0x77, 0xAE, 0x00]"
    by (simp add: bus_def)
  have rg: "response ?good (Suc (reqs ?good)) = [0x1C, 0x73, 0x33, 0x35, 0x77, 0xAE, 0x49]"
    by (simp add: bus_def)
  from integrity_check [of "rawData ?s" ?s ?bad datasheet] bad
  have "status (fst (readMeasurement datasheet ?s ?bad)) =
        (if sensorType ?s = AHT2x_SENSOR \<and>
            crc8_spec (take 6 (response ?bad (Suc (reqs ?bad)))) \<noteq> response ?bad (Suc (reqs ?bad)) ! 6
         then AHTXX_CRC8_ERROR else AHTXX_NO_ERROR)"
    by blast
  then have 1: "status (fst (readMeasurement datasheet ?s ?bad)) = AHTXX_CRC8_ERROR"
    unfolding rb c by (simp add: t)
  from integrity_check [of "rawData ?s" ?s ?good datasheet] good
  have "status (fst (readMeasurement datasheet ?s ?good)) =
        (if sensorType ?s = AHT2x_SENSOR \<and>
            crc8_spec (take 6 (response ?good (Suc (reqs ?good)))) \<noteq> response ?good (Suc (reqs ?good)) ! 6
         then AHTXX_CRC8_ERROR else AHTXX_NO_ERROR)"
    by blast
  then have 2: "status (fst (readMeasurement datasheet ?s ?good)) = AHTXX_NO_ERROR"
    unfolding rg c by (simp add: t)
  have "length (response ?bad 1) = 7" by (simp add: bus_def)
  with 1 2 c(1) show ?thesis by simp
qed

section \<open>A sensor that is busy at the first status read\<close>

text \<open>
  The bus operations of a transaction whose first status read finds the busy bit set.
\<close>

lemma readMeasurement_trace_busy:
  assumes "endResult w (ends w) = 0" and "response w (reqs w) = [b]" and "busyBit b"
  shows "trace (snd (readMeasurement K s w)) =
           trace w @ triggerEvents K s @
           [Delay (AHTXX_CMD_DELAY K), RequestFrom (address s) 1 True, Read,
            Delay (AHTXX_MEASUREMENT_DELAY K - AHTXX_CMD_DELAY K),
            RequestFrom (address s) (frameLength (sensorType s)) True] @
           (if length (response w (Suc (reqs w))) = unat (frameLength (sensorType s))
            then replicate (length (response w (Suc (reqs w)))) Read else []) \<and>
         reqs (snd (readMeasurement K s w)) = reqs w + 2 \<and>
         ends (snd (readMeasurement K s w)) = ends w + 1"
proof (cases "length (response w (Suc (reqs w))) = unat (frameLength (sensorType s))")
  case False
  with assms show ?thesis
    by (simp add: readMeasurement_bulk_short [OF assms(1,2) False])
next
  case True
  with assms show ?thesis
    by (simp add: readMeasurement_bulk_full [OF assms(1,2) refl True])
qed

text \<open>
  Claim C5. When the status byte read after the trigger has the busy bit set,
  \<^verbatim>\<open>_getBusy()\<close> stores it in byte 0 and sets the status to \<^verbatim>\<open>AHTXX_BUSY_ERROR\<close>; the whole
  transaction then performs, after that read, one delay of the measurement delay minus the
  command delay and the bulk read, followed by the reads of the bytes if their number is the
  frame length, and nothing else: two read requests in all. The final status is decided by
  the first byte of the bulk read, and the check \<^verbatim>\<open>_getBusy(AHTXX_USE_READ_DATA)\<close> made
  after the bulk read leaves the bus as it is, for any session and bus.
\<close>

theorem busy_waits_once:
  assumes "endResult w (ends w) = 0" and "response w (reqs w) = [b]" and "busyBit b"
  shows "getBusy K AHTXX_FORCE_READ_DATA s
           (w\<lparr>ends := Suc (ends w), trace := trace w @ triggerEvents K s\<rparr>) =
           (AHTXX_BUSY_ERROR,
            s\<lparr>rawData := (rawData s)(0 := b), status := AHTXX_BUSY_ERROR\<rparr>,
            w\<lparr>ends := Suc (ends w), reqs := Suc (reqs w), rxBuffer := [],
              trace := trace w @ triggerEvents K s @
                [Delay (AHTXX_CMD_DELAY K), RequestFrom (address s) 1 True, Read]\<rparr>) \<and>
         trace (snd (readMeasurement K s w)) =
           trace w @ triggerEvents K s @
           [Delay (AHTXX_CMD_DELAY K), RequestFrom (address s) 1 True, Read,
            Delay (AHTXX_MEASUREMENT_DELAY K - AHTXX_CMD_DELAY K),
            RequestFrom (address s) (frameLength (sensorType s)) True] @
           (if length (response w (Suc (reqs w))) = unat (frameLength (sensorType s))
            then replicate (length (response w (Suc (reqs w)))) Read else []) \<and>
         reqs (snd (readMeasurement K s w)) = reqs w + 2 \<and>
         status (fst (readMeasurement K s w)) =
           (if length (response w (Suc (reqs w))) \<noteq> unat (frameLength (sensorType s))
            then AHTXX_DATA_ERROR
            else if busyBit (response w (Suc (reqs w)) ! 0) then AHTXX_BUSY_ERROR
            else if sensorType s = AHT2x_SENSOR \<and>
                    crc8_spec (take 6 (response w (Suc (reqs w)))) \<noteq>
                      response w (Suc (reqs w)) ! 6
            then AHTXX_CRC8_ERROR else AHTXX_NO_ERROR) \<and>
         getBusy K AHTXX_USE_READ_DATA s' w' =
           (if busyBit (rawData s' 0) then AHTXX_BUSY_ERROR else AHTXX_NO_ERROR,
            s'\<lparr>status := if busyBit (rawData s' 0) then AHTXX_BUSY_ERROR else AHTXX_NO_ERROR\<rparr>,
            w')"
proof -
  let ?w = "w\<lparr>ends := Suc (ends w), trace := trace w @ triggerEvents K s\<rparr>"
  have "response ?w (reqs ?w) = [b]"
    using assms(2) by simp
  from getBusy_forced_busy [OF this assms(3), of K s]
  have 1: "getBusy K AHTXX_FORCE_READ_DATA s ?w =
           (AHTXX_BUSY_ERROR,
            s\<lparr>rawData := (rawData s)(0 := b), status := AHTXX_BUSY_ERROR\<rparr>,
            w\<lparr>ends := Suc (ends w), reqs := Suc (reqs w), rxBuffer := [],
              trace := trace w @ triggerEvents K s @
                [Delay (AHTXX_CMD_DELAY K), RequestFrom (address s) 1 True, Read]\<rparr>)"
    by simp
  note 2 = readMeasurement_trace_busy [OF assms, of K s]
  have 3: "status (fst (readMeasurement K s w)) =
           (if length (response w (Suc (reqs w))) \<noteq> unat (frameLength (sensorType s))
            then AHTXX_DATA_ERROR
            else if busyBit (response w (Suc (reqs w)) ! 0) then AHTXX_BUSY_ERROR
            else if sensorType s = AHT2x_SENSOR \<and>
                    crc8_spec (take 6 (response w (Suc (reqs w)))) \<noteq>
                      response w (Suc (reqs w)) ! 6
            then AHTXX_CRC8_ERROR else AHTXX_NO_ERROR)"
    using assms(1,2) by (simp add: readMeasurement_status)
  from 1 2 3 getBusy_buffered [of K s' w'] show ?thesis
    by simp
qed

text \<open>
  A sensor that answers 0x98 (busy) to the status read and an idle frame to the bulk read.
\<close>

theorem busy_waits_once_witness:
  "busyBit 0x98 \<and>
   trace (snd (readMeasurement datasheet
     (AHTxx_new 0x38 AHT1x_SENSOR (frame_of []))
     (bus [0] [[0x98], [0x1C, 0x73, 0x33, 0x35, 0x77, 0xAE]]))) =
     [BeginTransmission 0x38, Write 0xAC, Write 0x33, Write 0x00, EndTransmission True,
      Delay 10, RequestFrom 0x38 1 True, Read, Delay 70, RequestFrom 0x38 6 True,
      Read, Read, Read, Read, Read, Read] \<and>
   reqs (snd (readMeasurement datasheet
     (AHTxx_new 0x38 AHT1x_SENSOR (frame_of []))
     (bus [0] [[0x98], [0x1C, 0x73, 0x33, 0x35, 0x77, 0xAE]]))) = 2 \<and>
   status (fst (readMeasurement datasheet
     (AHTxx_new 0x38 AHT1x_SENSOR (frame_of []))
     (bus [0] [[0x98], [0x1C, 0x73, 0x33, 0x35, 0x77, 0xAE]]))) = AHTXX_NO_ERROR"
proof -
  let ?w = "bus [0] [[0x98], [0x1C, 0x73, 0x33, 0x35, 0x77, 0xAE]]"
  let ?s = "AHTxx_new 0x38 AHT1x_SENSOR (frame_of [])"
  have a: "endResult ?w (ends ?w) = 0" by (simp add: bus_def)
  have b: "response ?w (reqs ?w) = [0x98]" by (simp add: bus_def)
  have c: "busyBit 0x98" by (simp add: busyBit_def AHTXX_STATUS_CTRL_BUSY_def)
  have r: "response ?w (Suc 0) = [0x1C, 0x73, 0x33, 0x35, 0x77, 0xAE]"
    by (simp add: bus_def)
  have six: "replicate 6 Read = [Read, Read, Read, Read, Read, Read]"
    by (simp add: numeral_eq_Suc)
  have t: "sensorType ?s = AHT1x_SENSOR" "address ?s = 0x38" by (simp_all add: AHTxx_new_def)
  have n: "\<not> busyBit 0x1C" by (simp add: busyBit_def AHTXX_STATUS_CTRL_BUSY_def)
  have tw: "trace ?w = []" "reqs ?w = 0" by (simp_all add: bus_def)
  from busy_waits_once [OF a b c, of datasheet ?s ?s ?w]
  have "trace (snd (readMeasurement datasheet ?s ?w)) =
           trace ?w @ triggerEvents datasheet ?s @
           [Delay (AHTXX_CMD_DELAY datasheet), RequestFrom (address ?s) 1 True, Read,
            Delay (AHTXX_MEASUREMENT_DELAY datasheet - AHTXX_CMD_DELAY datasheet),
            RequestFrom (address ?s) (frameLength (sensorType ?s)) True] @
           (if length (response ?w (Suc (reqs ?w))) = unat (frameLength (sensorType ?s))
            then replicate (length (response ?w (Suc (reqs ?w)))) Read else [])"
    and "reqs (snd (readMeasurement datasheet ?s ?w)) = reqs ?w + 2"
    and "status (fst (readMeasurement datasheet ?s ?w)) =
           (if length (response ?w (Suc (reqs ?w))) \<noteq> unat (frameLength (sensorType ?s))
            then AHTXX_DATA_ERROR
            else if busyBit (response ?w (Suc (reqs ?w)) ! 0) then AHTXX_BUSY_ERROR
            else if sensorType ?s = AHT2x_SENSOR \<and>
                    crc8_spec (take 6 (response ?w (Suc (reqs ?w)))) \<noteq>
                      response ?w (Suc (reqs ?w)) ! 6
            then AHTXX_CRC8_ERROR else AHTXX_NO_ERROR)"
    by blast+
  then show ?thesis
    using c n
    by (simp add: tw r t six triggerEvents_def datasheet_def frameLength_def)
qed

section \<open>Mode and reset controls\<close>

text \<open>
  \<^verbatim>\<open>_setInitializationRegister()\<close> returns whether the transmission succeeded and leaves
  the members alone.
\<close>

lemma setInitializationRegister_result:
  "setInitializationRegister K v s w =
     (endResult w (ends w) = 0, s,
      w\<lparr>ends := Suc (ends w),
        trace := trace w @
          [Delay (AHTXX_CMD_DELAY K), BeginTransmission (address s),
           Write (if sensorType s = AHT1x_SENSOR then AHT1X_INIT_REG K else AHT2X_INIT_REG K),
           Write v, Write (AHTXX_INIT_CTRL_NOP K), EndTransmission True]\<rparr>)"
  by (simp add: setInitializationRegister_def Wire_defs)

lemma readStatusRegister_session: "fst (snd (readStatusRegister K s w)) = s"
  by (simp add: readStatusRegister_def Wire_defs Let_def split: list.splits)

lemma getCalibration_session: "fst (snd (getCalibration K s w)) = s"
  using readStatusRegister_session [of K s w]
  by (auto simp add: getCalibration_def split: prod.splits)

lemma softReset_session: "fst (snd (softReset K s w)) = s"
proof -
  have "fst (snd (case getCalibration K s w' of
                    (cal, s', w'') \<Rightarrow> (cal = AHTXX_STATUS_CTRL_CAL_ON, s', w''))) = s" for w'
    using getCalibration_session [of K s w'] by (simp add: split_beta)
  then show ?thesis
    by (simp add: softReset_def setNormalMode_def setInitializationRegister_result
        Wire_defs Let_def)
qed

lemma softReset_nack:
  "endResult w (ends w) \<noteq> 0 \<Longrightarrow> fst (softReset K s w) = False"
  by (simp add: softReset_def Wire_defs)

text \<open>
  Claim C8, as amended. The three mode-setting operations and \<^verbatim>\<open>softReset\<close> perform bus
  transactions and leave the session, and so its status code, as it was, whatever the bus
  answers; the mode-setting operations report the outcome by their result alone, which is
  true exactly when the transmission ended with code 0. The measurement transaction does
  overwrite the status: the status after it does not depend on the status before.
\<close>

theorem mode_controls_keep_status:
  "setNormalMode K s w = (endResult w (ends w) = 0, s, snd (snd (setNormalMode K s w))) \<and>
   setCycleMode K s w = (endResult w (ends w) = 0, s, snd (snd (setCycleMode K s w))) \<and>
   setComandMode K s w = (endResult w (ends w) = 0, s, snd (snd (setComandMode K s w))) \<and>
   fst (snd (softReset K s w)) = s \<and>
   status (fst (snd (setNormalMode K s w))) = status s \<and>
   status (fst (snd (setCycleMode K s w))) = status s \<and>
   status (fst (snd (setComandMode K s w))) = status s \<and>
   status (fst (snd (softReset K s w))) = status s \<and>
   status (fst (readMeasurement K (s\<lparr>status := x\<rparr>) w)) = status (fst (readMeasurement K s w))"
proof -
  have "status (fst (readMeasurement K (s\<lparr>status := x\<rparr>) w)) =
        status (fst (readMeasurement K s w))"
    by (simp add: readMeasurement_status)
  then show ?thesis
    by (simp add: setNormalMode_def setCycleMode_def setComandMode_def
        setInitializationRegister_result softReset_session)
qed

text \<open>
  Claim C8, as stated, fails: on a bus that does not acknowledge, \<^verbatim>\<open>setNormalMode\<close> and
  \<^verbatim>\<open>softReset\<close> return false and the status is still \<^verbatim>\<open>AHTXX_NO_ERROR\<close>; and a
  \<^verbatim>\<open>setNormalMode\<close> that succeeds leaves a status \<^verbatim>\<open>AHTXX_ACK_ERROR\<close> in place.
\<close>

theorem mode_controls_counterexample:
  "fst (setNormalMode datasheet (AHTxx_new 0x38 AHT1x_SENSOR (frame_of [])) (bus [2] [])) = False \<and>
   status (fst (snd (setNormalMode datasheet (AHTxx_new 0x38 AHT1x_SENSOR (frame_of []))
                       (bus [2] [])))) = AHTXX_NO_ERROR \<and>
   fst (softReset datasheet (AHTxx_new 0x38 AHT1x_SENSOR (frame_of [])) (bus [2] [])) = False \<and>
   status (fst (snd (softReset datasheet (AHTxx_new 0x38 AHT1x_SENSOR (frame_of []))
                       (bus [2] [])))) = AHTXX_NO_ERROR \<and>
   fst (setNormalMode datasheet
          (AHTxx_new 0x38 AHT1x_SENSOR (frame_of [])\<lparr>status := AHTXX_ACK_ERROR\<rparr>)
          (bus [0] [])) = True \<and>
   status (fst (snd (setNormalMode datasheet
          (AHTxx_new 0x38 AHT1x_SENSOR (frame_of [])\<lparr>status := AHTXX_ACK_ERROR\<rparr>)
          (bus [0] [])))) = AHTXX_ACK_ERROR"
  by (simp add: setNormalMode_def setInitializationRegister_result softReset_session
      softReset_nack bus_def AHTxx_new_def)

end
